theory Spec2Isabelle
  imports Main "HOL-Library.Word"
begin

section \<open>The VPN server of \<^verbatim>\<open>internal/vpn/server.go\<close>\<close>

text \<open>
  The theory embeds the three methods of \<^verbatim>\<open>Server\<close> that carry the behaviour of the
  package: \<^verbatim>\<open>shakeHands\<close>, \<^verbatim>\<open>serveConn\<close> and \<^verbatim>\<open>Serve\<close>. Everything these methods
  call outside \<^verbatim>\<open>server.go\<close> (the JSON transport, the address pool \<^verbatim>\<open>IPGenerator\<close>,
  the privilege bracket, the forwarding and masquerading switches, the TUN device) is
  declared in other files of the package. Those collaborators are parameters of the
  model: functions on an external world of type \<open>'w\<close> and on a pool of type \<open>'p\<close>,
  which may succeed or fail in any way. The model threads the world through the calls in
  the order of the source and records every call, with its arguments and its outcome, in
  a trace of events. The model is sequential: it follows one call of a method from its
  first statement to its return, and the tasks that run beside it are not interleaved.
\<close>

subsection \<open>Data\<close>

type_synonym u8 = "8 word"

text \<open>\<^verbatim>\<open>net.IP\<close> is a byte slice; \<^verbatim>\<open>nil\<close> is the empty list.\<close>

type_synonym IP = "u8 list"

text \<open>
  \<^verbatim>\<open>net.IPv4(a, b, c, d)\<close> of the Go standard library: the 16-byte form of the IPv4
  address, the prefix \<^verbatim>\<open>00 00 00 00 00 00 00 00 00 00 ff ff\<close> followed by the four octets.
\<close>

definition IPv4 :: "u8 \<Rightarrow> u8 \<Rightarrow> u8 \<Rightarrow> u8 \<Rightarrow> IP" where
  "IPv4 a b c d = [0, 0, 0, 0, 0, 0, 0, 0, 0, 0, 255, 255, a, b, c, d]"

text \<open>
  Go \<^verbatim>\<open>error\<close> values. \<open>New m\<close> is \<^verbatim>\<open>errors.New(m)\<close>, also used for the errors that
  collaborators produce; \<open>Errorf f e\<close> is \<^verbatim>\<open>fmt.Errorf(f, ..., e)\<close> where \<open>f\<close> ends in
  \<^verbatim>\<open>%w\<close> and wraps \<open>e\<close> (the other formatted arguments are not kept).
\<close>

datatype error = New string | Errorf string error

type_synonym Conn = nat
type_synonym Listener = nat

text \<open>A TUN device is known by its name, the value of \<^verbatim>\<open>tun.Name()\<close>.\<close>

type_synonym TUNDevice = string

record ClientHello =
  Passcode :: string
  UnavailablePrivateIPs :: "IP list"

text \<open>
  The declaration of \<^verbatim>\<open>HandshakeStatus\<close> is not in the sources, so the type of the
  field \<open>Status\<close> is the type parameter \<open>'st\<close>.
\<close>

record 'st ServerHello =
  Status :: 'st
  TUNIP :: IP
  TUNGateway :: IP

datatype level = Debug | Info | Error

datatype 'st event =
    Log level string "error option"
  | CallReadJSON Conn "error + ClientHello"
  | CallWriteJSON Conn "'st ServerHello" "error option"
  | CallReserve IP "error option"
  | CallNext "error + IP"
  | CallSetupSysPrivileges "error + int"
  | CallReleaseSysPrivileges int "error option"
  | CallEnableIPv4Forwarding "error option"
  | CallEnableIPv6Forwarding "error option"
  | CallSetIPv4ForwardingValue string "error option"
  | CallSetIPv6ForwardingValue string "error option"
  | CallEnableIPMasquerading string "error option"
  | CallDisableIPMasquerading string "error option"
  | CallAccept Listener "error + Conn"
  | GoServeConn Conn
  | CallNewTUNDevice "error + TUNDevice"
  | CallSetupTUN TUNDevice IP IP "error option"
  | CallCloseTUN TUNDevice "error option"
  | CallCloseConn Conn "error option"
  | Relay Conn TUNDevice

text \<open>
  The collaborators. Every function of the package that \<^verbatim>\<open>server.go\<close> calls and does
  not define is a field; so are the constants of \<^verbatim>\<open>HandshakeStatus\<close> and the zero value
  of that type, which Go gives to a field that is never assigned. \<open>relay\<close> stands for the
  two \<^verbatim>\<open>io.Copy\<close> tasks of \<^verbatim>\<open>serveConn\<close> together with the \<^verbatim>\<open>select\<close> that waits for the
  first of them to end. \<open>fetchIPv4Octets\<close> has no effect on the world. \<open>SetupTUN\<close>
  takes the name of the device and the two addresses; the netmask and the MTU that the
  source passes as well are constants of the package (\<^verbatim>\<open>TUNNetmaskCIDR\<close>, \<^verbatim>\<open>TUNMTU\<close>).
\<close>

record ('w, 'p, 'st) env =
  ReadJSON :: "Conn \<Rightarrow> 'w \<Rightarrow> (error + ClientHello) \<times> 'w"
  WriteJSON :: "Conn \<Rightarrow> 'st ServerHello \<Rightarrow> 'w \<Rightarrow> error option \<times> 'w"
  Reserve :: "IP \<Rightarrow> 'p \<Rightarrow> error option \<times> 'p"
  Next :: "'p \<Rightarrow> (error + IP) \<times> 'p"
  fetchIPv4Octets :: "IP \<Rightarrow> error + (u8 \<times> u8 \<times> u8 \<times> u8)"
  zeroStatus :: 'st
  HandshakeStatusOK :: 'st
  HandshakeStatusForbidden :: 'st
  HandshakeStatusBadRequest :: 'st
  HandshakeNoFreeIPs :: 'st
  HandshakeStatusInternalError :: 'st
  setupSysPrivileges :: "'w \<Rightarrow> (error + int) \<times> 'w"
  releaseSysPrivileges :: "int \<Rightarrow> 'w \<Rightarrow> error option \<times> 'w"
  EnableIPv4Forwarding :: "'w \<Rightarrow> error option \<times> 'w"
  EnableIPv6Forwarding :: "'w \<Rightarrow> error option \<times> 'w"
  SetIPv4ForwardingValue :: "string \<Rightarrow> 'w \<Rightarrow> error option \<times> 'w"
  SetIPv6ForwardingValue :: "string \<Rightarrow> 'w \<Rightarrow> error option \<times> 'w"
  EnableIPMasquerading :: "string \<Rightarrow> 'w \<Rightarrow> error option \<times> 'w"
  DisableIPMasquerading :: "string \<Rightarrow> 'w \<Rightarrow> error option \<times> 'w"
  Accept :: "Listener \<Rightarrow> 'w \<Rightarrow> (error + Conn) \<times> 'w"
  newTUNDevice :: "'w \<Rightarrow> (error + TUNDevice) \<times> 'w"
  SetupTUN :: "TUNDevice \<Rightarrow> IP \<Rightarrow> IP \<Rightarrow> 'w \<Rightarrow> error option \<times> 'w"
  closeTUN :: "TUNDevice \<Rightarrow> 'w \<Rightarrow> error option \<times> 'w"
  closeConnection :: "Conn \<Rightarrow> 'w \<Rightarrow> error option \<times> 'w"
  relay :: "Conn \<Rightarrow> TUNDevice \<Rightarrow> 'w \<Rightarrow> 'w"

text \<open>
  The struct \<^verbatim>\<open>Server\<close>. \<open>cfg_Passcode\<close> is \<^verbatim>\<open>cfg.Passcode\<close>; \<open>ipGen\<close> is the state of
  the pool that the pointer \<^verbatim>\<open>ipGen\<close> refers to. The mutex \<^verbatim>\<open>lisMx\<close> has no sequential
  content and the logger \<^verbatim>\<open>log\<close> writes to the trace.

  The \<^verbatim>\<open>sync.Once\<close> of the Go standard library is a flag and a mutex, and has two
  fields here: \<open>serveOnce\<close> is the flag, set when the function given to \<^verbatim>\<open>Do\<close> has
  returned; \<open>serveOnceRunning\<close> tells that a call of \<^verbatim>\<open>Do\<close> holds the mutex and is running
  its function.
\<close>

record 'p Server =
  cfg_Passcode :: string
  lis :: "Listener option"
  serveOnce :: bool
  serveOnceRunning :: bool
  ipGen :: 'p
  defaultNetworkInterface :: string
  ipv4ForwardingVal :: string
  ipv6ForwardingVal :: string

record ('w, 'st) world =
  ext :: 'w
  trace :: "'st event list"

subsection \<open>Calls and logging\<close>

definition call ::
  "('w \<Rightarrow> 'r \<times> 'w) \<Rightarrow> ('r \<Rightarrow> 'st event) \<Rightarrow> ('w, 'st) world \<Rightarrow> 'r \<times> ('w, 'st) world" where
  "call f ev w = (case f (ext w) of (r, x) \<Rightarrow> (r, \<lparr>ext = x, trace = trace w @ [ev r]\<rparr>))"

definition logf :: "level \<Rightarrow> string \<Rightarrow> error option \<Rightarrow> ('w, 'st) world \<Rightarrow> ('w, 'st) world" where
  "logf lv msg err w = w\<lparr>trace := trace w @ [Log lv msg err]\<rparr>"

definition callReserve ::
  "('w, 'p, 'st) env \<Rightarrow> IP \<Rightarrow> 'p Server \<Rightarrow> ('w, 'st) world
    \<Rightarrow> error option \<times> 'p Server \<times> ('w, 'st) world" where
  "callReserve env ip s w =
     (case Reserve env ip (ipGen s) of
        (r, p) \<Rightarrow> (r, s\<lparr>ipGen := p\<rparr>, w\<lparr>trace := trace w @ [CallReserve ip r]\<rparr>))"

definition callNext ::
  "('w, 'p, 'st) env \<Rightarrow> 'p Server \<Rightarrow> ('w, 'st) world
    \<Rightarrow> (error + IP) \<times> 'p Server \<times> ('w, 'st) world" where
  "callNext env s w =
     (case Next env (ipGen s) of
        (r, p) \<Rightarrow> (r, s\<lparr>ipGen := p\<rparr>, w\<lparr>trace := trace w @ [CallNext r]\<rparr>))"

subsection \<open>shakeHands\<close>

text \<open>
  The statement that every failure branch of \<^verbatim>\<open>shakeHands\<close> repeats:
  \<^verbatim>\<open>if err := WriteJSON(conn, &sHello); err != nil { s.log.WithError(err).Errorln(...) }\<close>.
\<close>

definition sendHello ::
  "('w, 'p, 'st) env \<Rightarrow> Conn \<Rightarrow> 'st ServerHello \<Rightarrow> ('w, 'st) world \<Rightarrow> ('w, 'st) world" where
  "sendHello env conn sHello w =
     (case call (WriteJSON env conn sHello) (CallWriteJSON conn sHello) w of
        (Some err, w1) \<Rightarrow> logf Error ''Error sending server hello'' (Some err) w1
      | (None, w1) \<Rightarrow> w1)"

text \<open>
  \<^verbatim>\<open>var sHello ServerHello\<close>: every field has the zero value of its type.
\<close>

definition zeroHello :: "('w, 'p, 'st) env \<Rightarrow> 'st ServerHello" where
  "zeroHello env = \<lparr>Status = zeroStatus env, TUNIP = [], TUNGateway = []\<rparr>"

text \<open>
  The loop over \<^verbatim>\<open>cHello.UnavailablePrivateIPs\<close>. The result \<open>Some err\<close> means that
  \<^verbatim>\<open>shakeHands\<close> returns \<open>err\<close> from inside the loop.
\<close>

fun reserveAll ::
  "('w, 'p, 'st) env \<Rightarrow> Conn \<Rightarrow> 'st ServerHello \<Rightarrow> IP list \<Rightarrow> 'p Server \<Rightarrow> ('w, 'st) world
    \<Rightarrow> error option \<times> 'p Server \<times> ('w, 'st) world" where
  "reserveAll env conn sHello [] s w = (None, s, w)"
| "reserveAll env conn sHello (ip # ips) s w =
     (case callReserve env ip s w of
        (Some err, s1, w1) \<Rightarrow>
          (Some (Errorf ''error reserving IP %s: %w'' err), s1,
           sendHello env conn (sHello\<lparr>Status := HandshakeStatusBadRequest env\<rparr>) w1)
      | (None, s1, w1) \<Rightarrow> reserveAll env conn sHello ips s1 w1)"

definition shakeHands ::
  "('w, 'p, 'st) env \<Rightarrow> Conn \<Rightarrow> 'p Server \<Rightarrow> ('w, 'st) world
    \<Rightarrow> (error + IP \<times> IP) \<times> 'p Server \<times> ('w, 'st) world" where
  "shakeHands env conn s w =
     (case call (ReadJSON env conn) (CallReadJSON conn) w of
        (Inl err, w1) \<Rightarrow> (Inl (Errorf ''error reading client hello: %w'' err), s, w1)
      | (Inr cHello, w1) \<Rightarrow>
          let w2 = logf Debug ''Got client hello: %v'' None w1;
              sHello = zeroHello env
          in
          if cfg_Passcode s \<noteq> [] \<and> Passcode cHello \<noteq> cfg_Passcode s then
            (Inl (New ''got wrong passcode from client''), s,
             sendHello env conn (sHello\<lparr>Status := HandshakeStatusForbidden env\<rparr>) w2)
          else
            (case reserveAll env conn sHello (UnavailablePrivateIPs cHello) s w2 of
               (Some err, s3, w3) \<Rightarrow> (Inl err, s3, w3)
             | (None, s3, w3) \<Rightarrow>
                 (case callNext env s3 w3 of
                    (Inl err, s4, w4) \<Rightarrow>
                      (Inl (Errorf ''error getting free subnet IP: %w'' err), s4,
                       sendHello env conn (sHello\<lparr>Status := HandshakeNoFreeIPs env\<rparr>) w4)
                  | (Inr subnet, s4, w4) \<Rightarrow>
                      (case fetchIPv4Octets env subnet of
                         Inl err \<Rightarrow>
                           (Inl (Errorf ''error breaking IP into octets: %w'' err), s4,
                            sendHello env conn
                              (sHello\<lparr>Status := HandshakeStatusInternalError env\<rparr>) w4)
                       | Inr (o0, o1, o2, o3) \<Rightarrow>
                           let sTUNIP = IPv4 o0 o1 o2 (o3 + 2);
                               sTUNGateway = IPv4 o0 o1 o2 (o3 + 1);
                               cTUNIP = IPv4 o0 o1 o2 (o3 + 4);
                               cTUNGateway = IPv4 o0 o1 o2 (o3 + 3);
                               sHello' = sHello\<lparr>TUNIP := cTUNIP, TUNGateway := cTUNGateway\<rparr>
                           in
                           (case call (WriteJSON env conn sHello') (CallWriteJSON conn sHello') w4 of
                              (Some err, w5) \<Rightarrow>
                                (Inl (Errorf
                                   ''error finishing hadnshake: error sending server hello: %w''
                                   err), s4, w5)
                            | (None, w5) \<Rightarrow> (Inr (sTUNIP, sTUNGateway), s4, w5))))))"


subsection \<open>Deferred calls\<close>

text \<open>
  The method \<^verbatim>\<open>(s *Server) releaseSysPrivileges\<close> at the end of \<^verbatim>\<open>server.go\<close>, and
  \<^verbatim>\<open>closeConn\<close>.
\<close>

definition Server_releaseSysPrivileges ::
  "('w, 'p, 'st) env \<Rightarrow> int \<Rightarrow> ('w, 'st) world \<Rightarrow> ('w, 'st) world" where
  "Server_releaseSysPrivileges env suid w =
     (case call (releaseSysPrivileges env suid) (CallReleaseSysPrivileges suid) w of
        (Some err, w1) \<Rightarrow> logf Error ''Failed to release system privileges'' (Some err) w1
      | (None, w1) \<Rightarrow> w1)"

definition closeConn :: "('w, 'p, 'st) env \<Rightarrow> Conn \<Rightarrow> ('w, 'st) world \<Rightarrow> ('w, 'st) world" where
  "closeConn env conn w =
     (case call (closeConnection env conn) (CallCloseConn conn) w of
        (Some err, w1) \<Rightarrow> logf Error ''Error closing client %s connection'' (Some err) w1
      | (None, w1) \<Rightarrow> w1)"

text \<open>
  The \<^verbatim>\<open>defer\<close> statements of \<^verbatim>\<open>Serve\<close> and \<^verbatim>\<open>serveConn\<close>, one constructor for each.
  A function keeps the calls it has deferred on a stack, the most recent first, and runs
  the stack from the top when it returns.
\<close>

datatype deferred =
    DeferCloseConn Conn
  | DeferReleaseSysPrivileges int
  | DeferCloseTUN TUNDevice
  | DeferRevertIPv4Forwarding
  | DeferRevertIPv6Forwarding
  | DeferDisableIPMasquerading
  | DeferSetupSysPrivileges

fun runDeferred ::
  "('w, 'p, 'st) env \<Rightarrow> 'p Server \<Rightarrow> deferred \<Rightarrow> ('w, 'st) world \<Rightarrow> ('w, 'st) world" where
  "runDeferred env s (DeferCloseConn conn) w = closeConn env conn w"
| "runDeferred env s (DeferReleaseSysPrivileges suid) w = Server_releaseSysPrivileges env suid w"
| "runDeferred env s (DeferCloseTUN tun) w =
     (case call (closeTUN env tun) (CallCloseTUN tun) w of
        (Some err, w1) \<Rightarrow> logf Error ''Error closing TUN %s'' (Some err) w1
      | (None, w1) \<Rightarrow> w1)"
| "runDeferred env s DeferRevertIPv4Forwarding w =
     (case call (SetIPv4ForwardingValue env (ipv4ForwardingVal s))
             (CallSetIPv4ForwardingValue (ipv4ForwardingVal s)) w of
        (Some err, w1) \<Rightarrow> logf Error ''Error reverting IPv4 forwarding'' (Some err) w1
      | (None, w1) \<Rightarrow> logf Info ''Set IPv4 forwarding = %s'' None w1)"
| "runDeferred env s DeferRevertIPv6Forwarding w =
     (case call (SetIPv6ForwardingValue env (ipv6ForwardingVal s))
             (CallSetIPv6ForwardingValue (ipv6ForwardingVal s)) w of
        (Some err, w1) \<Rightarrow> logf Error ''Error reverting IPv6 forwarding'' (Some err) w1
      | (None, w1) \<Rightarrow> logf Info ''Set IPv6 forwarding = %s'' None w1)"
| "runDeferred env s DeferDisableIPMasquerading w =
     (case call (DisableIPMasquerading env (defaultNetworkInterface s))
             (CallDisableIPMasquerading (defaultNetworkInterface s)) w of
        (Some err, w1) \<Rightarrow> logf Error ''Error disabling IP masquerading for %s'' (Some err) w1
      | (None, w1) \<Rightarrow> logf Info ''Disabled IP masquerading for %s'' None w1)"
| "runDeferred env s DeferSetupSysPrivileges w =
     (case call (setupSysPrivileges env) CallSetupSysPrivileges w of
        (Inl err, w1) \<Rightarrow> logf Error ''Failed to setup system privileges to clear up'' (Some err) w1
      | (Inr suid, w1) \<Rightarrow> w1)"

fun runDefers ::
  "('w, 'p, 'st) env \<Rightarrow> 'p Server \<Rightarrow> deferred list \<Rightarrow> ('w, 'st) world \<Rightarrow> ('w, 'st) world" where
  "runDefers env s [] w = w"
| "runDefers env s (d # ds) w = runDefers env s ds (runDeferred env s d w)"

subsection \<open>serveConn\<close>

text \<open>
  The task that \<^verbatim>\<open>Serve\<close> starts for a connection. Lines 205 to 210 of the source release
  the privileges and call \<^verbatim>\<open>setupSysPrivileges\<close> again in a plain statement, not in a
  \<^verbatim>\<open>defer\<close>; the model calls it where the source does, before the relay. The relay is one
  step of the world: the tasks inside it and the tasks of other connections, which run at
  the same time, are not interleaved here.
\<close>

definition serveConn ::
  "('w, 'p, 'st) env \<Rightarrow> Conn \<Rightarrow> 'p Server \<Rightarrow> ('w, 'st) world \<Rightarrow> 'p Server \<times> ('w, 'st) world" where
  "serveConn env conn s w =
     (let ds0 = [DeferCloseConn conn] in
      case shakeHands env conn s w of
        (Inl err, s1, w1) \<Rightarrow>
          (s1, runDefers env s1 ds0
                 (logf Error ''Error negotiating with client %s'' (Some err) w1))
      | (Inr (tunIP, tunGateway), s1, w1) \<Rightarrow>
          (case call (setupSysPrivileges env) CallSetupSysPrivileges w1 of
             (Inl err, w2) \<Rightarrow>
               (s1, runDefers env s1 ds0
                      (logf Error ''Failed to setup system privileges'' (Some err) w2))
           | (Inr suid, w2) \<Rightarrow>
               let ds1 = DeferReleaseSysPrivileges suid # ds0 in
               (case call (newTUNDevice env) CallNewTUNDevice w2 of
                  (Inl err, w3) \<Rightarrow>
                    (s1, runDefers env s1 ds1
                           (logf Error ''Error allocating TUN interface'' (Some err) w3))
                | (Inr tun, w3) \<Rightarrow>
                    let ds2 = DeferCloseTUN tun # ds1;
                        w4 = logf Info ''Allocated TUN %s'' None w3
                    in
                    (case call (SetupTUN env tun tunIP tunGateway)
                            (CallSetupTUN tun tunIP tunGateway) w4 of
                       (Some err, w5) \<Rightarrow>
                         (s1, runDefers env s1 ds2
                                (logf Error ''Error setting up TUN %s'' (Some err) w5))
                     | (None, w5) \<Rightarrow>
                         let w6 = Server_releaseSysPrivileges env suid w5;
                             w7 = (case call (setupSysPrivileges env) CallSetupSysPrivileges w6 of
                                     (Inl err, w') \<Rightarrow>
                                       logf Error ''Failed to setup system privileges to clear up''
                                         (Some err) w'
                                   | (Inr suid', w') \<Rightarrow> w');
                             w8 = \<lparr>ext = relay env conn tun (ext w7),
                                   trace = trace w7 @ [Relay conn tun]\<rparr>
                         in (s1, runDefers env s1 ds2 w8)))))"

subsection \<open>Serve\<close>

text \<open>
  The loop \<^verbatim>\<open>for { conn, err := s.lis.Accept(); ...; go s.serveConn(conn) }\<close>. It ends only
  when \<^verbatim>\<open>Accept\<close> fails. The fuel bounds the number of iterations; \<open>None\<close> means that the
  loop is still running when the fuel is spent. Starting the task of a connection is the
  event \<open>GoServeConn\<close>.
\<close>

fun acceptLoop ::
  "('w, 'p, 'st) env \<Rightarrow> nat \<Rightarrow> Listener \<Rightarrow> ('w, 'st) world \<Rightarrow> (error \<times> ('w, 'st) world) option" where
  "acceptLoop env 0 l w = None"
| "acceptLoop env (Suc n) l w =
     (case call (Accept env l) (CallAccept l) w of
        (Inl err, w1) \<Rightarrow> Some (Errorf ''failed to accept client connection: %w'' err, w1)
      | (Inr conn, w1) \<Rightarrow> acceptLoop env n l (w1\<lparr>trace := trace w1 @ [GoServeConn conn]\<rparr>))"

text \<open>
  \<^verbatim>\<open>Serve\<close>. \<^verbatim>\<open>serveOnce.Do\<close> returns at once when the flag is set, and \<^verbatim>\<open>serveErr\<close> keeps
  its first value. Otherwise \<^verbatim>\<open>Do\<close> takes the mutex of the \<^verbatim>\<open>Once\<close>, runs its function,
  sets the flag and frees the mutex. When another call of \<^verbatim>\<open>Do\<close> holds the mutex, this one
  waits for it; a call that waits has not returned, whatever the fuel, and its result is
  \<open>None\<close>. Every path through the function assigns \<^verbatim>\<open>serveErr\<close>, so \<^verbatim>\<open>Serve\<close> always
  returns an error; the result is \<open>None\<close> as well when the accept loop does not end within
  the fuel. The server that a call returns has the mutex free, as the call found it.
\<close>

definition Serve ::
  "('w, 'p, 'st) env \<Rightarrow> nat \<Rightarrow> Listener \<Rightarrow> 'p Server \<Rightarrow> ('w, 'st) world
    \<Rightarrow> (error \<times> 'p Server \<times> ('w, 'st) world) option" where
  "Serve env fuel l s w =
     (if serveOnce s then Some (New ''already serving'', s, w)
      else if serveOnceRunning s then None
      else
        case call (setupSysPrivileges env) CallSetupSysPrivileges w of
          (Inl err, w1) \<Rightarrow>
            Some (Errorf ''failed to setup system privileges: %w'' err, s\<lparr>serveOnce := True\<rparr>, w1)
        | (Inr suid, w1) \<Rightarrow>
            let ds1 = [DeferReleaseSysPrivileges suid] in
            (case call (EnableIPv4Forwarding env) CallEnableIPv4Forwarding w1 of
               (Some err, w2) \<Rightarrow>
                 Some (Errorf ''error enabling IPv4 forwarding: %w'' err, s\<lparr>serveOnce := True\<rparr>,
                       runDefers env s ds1 w2)
             | (None, w2) \<Rightarrow>
                 let w3 = logf Info ''Set IPv4 forwarding = 1'' None w2;
                     ds2 = DeferRevertIPv4Forwarding # ds1
                 in
                 (case call (EnableIPv6Forwarding env) CallEnableIPv6Forwarding w3 of
                    (Some err, w4) \<Rightarrow>
                      Some (Errorf ''error enabling IPv6 forwarding: %w'' err,
                            s\<lparr>serveOnce := True\<rparr>, runDefers env s ds2 w4)
                  | (None, w4) \<Rightarrow>
                      let w5 = logf Info ''Set IPv6 forwarding = 1'' None w4;
                          ds3 = DeferRevertIPv6Forwarding # ds2
                      in
                      (case call (EnableIPMasquerading env (defaultNetworkInterface s))
                              (CallEnableIPMasquerading (defaultNetworkInterface s)) w5 of
                         (Some err, w6) \<Rightarrow>
                           Some (Errorf ''error enabling IP masquerading for %s: %w'' err,
                                 s\<lparr>serveOnce := True\<rparr>, runDefers env s ds3 w6)
                       | (None, w6) \<Rightarrow>
                           let w7 = logf Info ''Enabled IP masquerading'' None w6;
                               ds4 = DeferDisableIPMasquerading # ds3;
                               w8 = Server_releaseSysPrivileges env suid w7;
                               ds5 = DeferSetupSysPrivileges # ds4;
                               s1 = s\<lparr>lis := Some l\<rparr>
                           in
                           (case acceptLoop env fuel l w8 of
                              None \<Rightarrow> None
                            | Some (err, w9) \<Rightarrow>
                                Some (err, s1\<lparr>serveOnce := True\<rparr>,
                                      runDefers env s1 ds5 w9))))))"


text \<open>
  The server and the world as another task finds them while a call of \<^verbatim>\<open>Serve\<close> is in
  its accept loop: the statements of \<^verbatim>\<open>Serve\<close> up to the loop, then \<open>n\<close> iterations of the
  loop, each with a connection accepted. \<^verbatim>\<open>Do\<close> holds the mutex of the \<^verbatim>\<open>Once\<close> and has
  not set the flag yet; \<^verbatim>\<open>lis\<close> is assigned. The result is \<open>None\<close> when the call does not
  get that far.
\<close>

fun accepted ::
  "('w, 'p, 'st) env \<Rightarrow> nat \<Rightarrow> Listener \<Rightarrow> ('w, 'st) world \<Rightarrow> ('w, 'st) world option" where
  "accepted env 0 l w = Some w"
| "accepted env (Suc n) l w =
     (case call (Accept env l) (CallAccept l) w of
        (Inl err, w1) \<Rightarrow> None
      | (Inr conn, w1) \<Rightarrow> accepted env n l (w1\<lparr>trace := trace w1 @ [GoServeConn conn]\<rparr>))"

definition serving ::
  "('w, 'p, 'st) env \<Rightarrow> nat \<Rightarrow> Listener \<Rightarrow> 'p Server \<Rightarrow> ('w, 'st) world
    \<Rightarrow> ('p Server \<times> ('w, 'st) world) option" where
  "serving env n l s w =
     (if serveOnce s \<or> serveOnceRunning s then None
      else
        case call (setupSysPrivileges env) CallSetupSysPrivileges w of
          (Inl err, w1) \<Rightarrow> None
        | (Inr suid, w1) \<Rightarrow>
            (case call (EnableIPv4Forwarding env) CallEnableIPv4Forwarding w1 of
               (Some err, w2) \<Rightarrow> None
             | (None, w2) \<Rightarrow>
                 let w3 = logf Info ''Set IPv4 forwarding = 1'' None w2 in
                 (case call (EnableIPv6Forwarding env) CallEnableIPv6Forwarding w3 of
                    (Some err, w4) \<Rightarrow> None
                  | (None, w4) \<Rightarrow>
                      let w5 = logf Info ''Set IPv6 forwarding = 1'' None w4 in
                      (case call (EnableIPMasquerading env (defaultNetworkInterface s))
                              (CallEnableIPMasquerading (defaultNetworkInterface s)) w5 of
                         (Some err, w6) \<Rightarrow> None
                       | (None, w6) \<Rightarrow>
                           let w7 = logf Info ''Enabled IP masquerading'' None w6;
                               w8 = Server_releaseSysPrivileges env suid w7
                           in
                           (case accepted env n l w8 of
                              None \<Rightarrow> None
                            | Some w9 \<Rightarrow>
                                Some (s\<lparr>lis := Some l, serveOnceRunning := True\<rparr>, w9))))))"

subsection \<open>Reading traces\<close>

text \<open>The events that a call has added to the trace of the world.\<close>

definition newEvents :: "('w, 'st) world \<Rightarrow> ('w, 'st) world \<Rightarrow> 'st event list" where
  "newEvents w w' = drop (length (trace w)) (trace w')"

text \<open>The hellos handed to \<^verbatim>\<open>WriteJSON\<close>, in order, whether or not the write succeeded.\<close>

fun sentHellos :: "'st event list \<Rightarrow> 'st ServerHello list" where
  "sentHellos [] = []"
| "sentHellos (CallWriteJSON c h r # evs) = h # sentHellos evs"
| "sentHellos (_ # evs) = sentHellos evs"

fun isPoolCall :: "'st event \<Rightarrow> bool" where
  "isPoolCall (CallReserve ip r) = True"
| "isPoolCall (CallNext r) = True"
| "isPoolCall _ = False"

fun isEnableCall :: "'st event \<Rightarrow> bool" where
  "isEnableCall (CallEnableIPv4Forwarding r) = True"
| "isEnableCall (CallEnableIPv6Forwarding r) = True"
| "isEnableCall (CallEnableIPMasquerading i r) = True"
| "isEnableCall _ = False"

fun isRestoreCall :: "'st event \<Rightarrow> bool" where
  "isRestoreCall (CallDisableIPMasquerading i r) = True"
| "isRestoreCall (CallSetIPv6ForwardingValue v r) = True"
| "isRestoreCall (CallSetIPv4ForwardingValue v r) = True"
| "isRestoreCall _ = False"

fun isAcceptEvent :: "'st event \<Rightarrow> bool" where
  "isAcceptEvent (CallAccept l r) = True"
| "isAcceptEvent (GoServeConn c) = True"
| "isAcceptEvent _ = False"

text \<open>The events of reading a hello, and of sending one on a failure branch.\<close>

definition helloEvents :: "Conn \<Rightarrow> ClientHello \<Rightarrow> 'st event list" where
  "helloEvents conn cHello =
     [CallReadJSON conn (Inr cHello), Log Debug ''Got client hello: %v'' None]"

definition sendHelloEvents :: "Conn \<Rightarrow> 'st ServerHello \<Rightarrow> error option \<Rightarrow> 'st event list" where
  "sendHelloEvents conn h wr =
     CallWriteJSON conn h wr #
       (case wr of Some err \<Rightarrow> [Log Error ''Error sending server hello'' (Some err)]
        | None \<Rightarrow> [])"

text \<open>
  The log entry that follows a restoration step with outcome \<open>r\<close>: the error when it
  failed, the confirmation when it did not.
\<close>

definition outcomeLog :: "string \<Rightarrow> string \<Rightarrow> error option \<Rightarrow> 'st event" where
  "outcomeLog errMsg okMsg r =
     (case r of Some err \<Rightarrow> Log Error errMsg (Some err) | None \<Rightarrow> Log Info okMsg None)"

text \<open>
  The reservation of the declared addresses as the specification words it: every address
  in turn, up to the first one that the pool refuses. The result is that address with its
  error, or \<open>None\<close> when the pool has taken them all, and the pool after the last call.
\<close>

fun reserveEach :: "('w, 'p, 'st) env \<Rightarrow> IP list \<Rightarrow> 'p \<Rightarrow> (IP \<times> error) option \<times> 'p" where
  "reserveEach env [] p = (None, p)"
| "reserveEach env (ip # ips) p =
     (case Reserve env ip p of
        (Some err, p') \<Rightarrow> (Some (ip, err), p')
      | (None, p') \<Rightarrow> reserveEach env ips p')"

text \<open>
  The events of the calls that \<^verbatim>\<open>Serve\<close> defers, each with its outcome and the log
  entry that follows it.
\<close>

definition releaseEvents :: "int \<Rightarrow> error option \<Rightarrow> 'st event list" where
  "releaseEvents suid r =
     CallReleaseSysPrivileges suid r #
       (case r of Some err \<Rightarrow> [Log Error ''Failed to release system privileges'' (Some err)]
        | None \<Rightarrow> [])"

definition revertIPv4Events :: "'p Server \<Rightarrow> error option \<Rightarrow> 'st event list" where
  "revertIPv4Events s r =
     [CallSetIPv4ForwardingValue (ipv4ForwardingVal s) r,
      outcomeLog ''Error reverting IPv4 forwarding'' ''Set IPv4 forwarding = %s'' r]"

definition revertIPv6Events :: "'p Server \<Rightarrow> error option \<Rightarrow> 'st event list" where
  "revertIPv6Events s r =
     [CallSetIPv6ForwardingValue (ipv6ForwardingVal s) r,
      outcomeLog ''Error reverting IPv6 forwarding'' ''Set IPv6 forwarding = %s'' r]"

definition disableMasqueradingEvents :: "'p Server \<Rightarrow> error option \<Rightarrow> 'st event list" where
  "disableMasqueradingEvents s r =
     [CallDisableIPMasquerading (defaultNetworkInterface s) r,
      outcomeLog ''Error disabling IP masquerading for %s'' ''Disabled IP masquerading for %s'' r]"

definition setupAgainEvents :: "error + int \<Rightarrow> 'st event list" where
  "setupAgainEvents r =
     CallSetupSysPrivileges r #
       (case r of
          Inl err \<Rightarrow> [Log Error ''Failed to setup system privileges to clear up'' (Some err)]
        | Inr suid \<Rightarrow> [])"

text \<open>
  The teardown of \<^verbatim>\<open>Serve\<close> as the specification words it: the privileges are taken
  again, masquerading is disabled, the IPv6 value is restored, the IPv4 value is restored
  and the privileges are released, whatever the outcomes \<open>r0\<close> to \<open>r4\<close> of the five steps.
\<close>

definition teardownEvents ::
  "'p Server \<Rightarrow> int \<Rightarrow> error + int \<Rightarrow> error option \<Rightarrow> error option \<Rightarrow> error option
    \<Rightarrow> error option \<Rightarrow> 'st event list" where
  "teardownEvents s suid r0 r1 r2 r3 r4 =
     setupAgainEvents r0 @ disableMasqueradingEvents s r1 @ revertIPv6Events s r2 @
     revertIPv4Events s r3 @ releaseEvents suid r4"

text \<open>
  Modelled from the spec: the privilege bracket \<^verbatim>\<open>acquire() -> token\<close>,
  \<^verbatim>\<open>release(token)\<close>, whose code is not in the sources. A successful
  \<^verbatim>\<open>setupSysPrivileges\<close> leaves the process with elevated privileges, a successful
  \<^verbatim>\<open>releaseSysPrivileges\<close> leaves it without. \<open>relayPrivileged held evs\<close> tells whether a
  relay starts in \<open>evs\<close> while the privileges are held, \<open>held\<close> being the state before.
\<close>

fun relayPrivileged :: "bool \<Rightarrow> 'st event list \<Rightarrow> bool" where
  "relayPrivileged held [] = False"
| "relayPrivileged held (CallSetupSysPrivileges (Inr suid) # evs) = relayPrivileged True evs"
| "relayPrivileged held (CallReleaseSysPrivileges suid None # evs) = relayPrivileged False evs"
| "relayPrivileged held (Relay c t # evs) = (held \<or> relayPrivileged held evs)"
| "relayPrivileged held (_ # evs) = relayPrivileged held evs"

subsection \<open>An environment for running the model\<close>

text \<open>
  Modelled from the spec: the address pool, whose code (\<^verbatim>\<open>IPGenerator\<close>) is not in the
  sources. The pool is 192.168.0.0/24 cut into 32 blocks of 8 addresses. \<open>Next\<close> hands
  out the first block from the cursor on that is not reserved, marks it allocated and
  moves the cursor past it; it fails when no block is left. \<open>Reserve\<close> marks the block
  of an address of the pool as reserved and fails on an address that is not 16 bytes long.
\<close>

record pool =
  cursor :: nat
  reserved :: "nat list"
  allocated :: "nat list"

definition blockBase :: "nat \<Rightarrow> IP" where
  "blockBase b = IPv4 192 168 0 (of_nat (8 * b))"

fun nextFree :: "nat \<Rightarrow> nat \<Rightarrow> nat list \<Rightarrow> nat option" where
  "nextFree 0 c rs = None"
| "nextFree (Suc n) c rs = (if c \<in> set rs then nextFree n (Suc c) rs else Some c)"

definition poolNext :: "pool \<Rightarrow> (error + IP) \<times> pool" where
  "poolNext p =
     (case nextFree (32 - cursor p) (cursor p) (reserved p) of
        None \<Rightarrow> (Inl (New ''no free IPs left''), p)
      | Some b \<Rightarrow> (Inr (blockBase b), p\<lparr>cursor := Suc b, allocated := b # allocated p\<rparr>))"

definition poolReserve :: "IP \<Rightarrow> pool \<Rightarrow> error option \<times> pool" where
  "poolReserve ip p =
     (if length ip \<noteq> 16 then (Some (New ''malformed address''), p)
      else if take 15 ip = take 15 (blockBase 0)
      then (None, p\<lparr>reserved := unat (ip ! 15) div 8 # reserved p\<rparr>)
      else (None, p))"

text \<open>
  The rest of the environment follows a script: the hello that the client sends, the
  outcomes of the successive calls of \<^verbatim>\<open>Accept\<close> (which fails once the list is used up),
  and the collaborators that fail when called.
\<close>

datatype collaborator =
    TheWriteJSON | TheSetupSysPrivileges | TheReleaseSysPrivileges
  | TheEnableIPv4Forwarding | TheEnableIPv6Forwarding | TheEnableIPMasquerading
  | TheDisableIPMasquerading | TheSetIPv4ForwardingValue | TheSetIPv6ForwardingValue
  | TheNewTUNDevice | TheSetupTUN | TheCloseTUN | TheCloseConn

record script =
  incoming :: "error + ClientHello"
  accepts :: "(error + Conn) list"
  failing :: "collaborator list"

definition outcome :: "collaborator \<Rightarrow> script \<Rightarrow> error option \<times> script" where
  "outcome c x = (if c \<in> set (failing x) then Some (New ''failed'') else None, x)"

definition scriptOctets :: "IP \<Rightarrow> error + (u8 \<times> u8 \<times> u8 \<times> u8)" where
  "scriptOctets ip =
     (if length ip = 16 then Inr (ip ! 12, ip ! 13, ip ! 14, ip ! 15)
      else Inl (New ''address is not of v4''))"

definition scriptEnv :: "(script, pool, nat) env" where
  "scriptEnv =
     \<lparr>ReadJSON = (\<lambda>conn x. (incoming x, x)),
      WriteJSON = (\<lambda>conn h. outcome TheWriteJSON),
      Reserve = poolReserve,
      Next = poolNext,
      fetchIPv4Octets = scriptOctets,
      zeroStatus = 0,
      HandshakeStatusOK = 0,
      HandshakeStatusForbidden = 4,
      HandshakeStatusBadRequest = 1,
      HandshakeNoFreeIPs = 2,
      HandshakeStatusInternalError = 3,
      setupSysPrivileges =
        (\<lambda>x. (if TheSetupSysPrivileges \<in> set (failing x) then Inl (New ''failed'') else Inr 1000,
              x)),
      releaseSysPrivileges = (\<lambda>suid. outcome TheReleaseSysPrivileges),
      EnableIPv4Forwarding = outcome TheEnableIPv4Forwarding,
      EnableIPv6Forwarding = outcome TheEnableIPv6Forwarding,
      SetIPv4ForwardingValue = (\<lambda>v. outcome TheSetIPv4ForwardingValue),
      SetIPv6ForwardingValue = (\<lambda>v. outcome TheSetIPv6ForwardingValue),
      EnableIPMasquerading = (\<lambda>i. outcome TheEnableIPMasquerading),
      DisableIPMasquerading = (\<lambda>i. outcome TheDisableIPMasquerading),
      Accept = (\<lambda>l x. case accepts x of [] \<Rightarrow> (Inl (New ''listener closed''), x)
                       | r # rs \<Rightarrow> (r, x\<lparr>accepts := rs\<rparr>)),
      newTUNDevice =
        (\<lambda>x. (if TheNewTUNDevice \<in> set (failing x) then Inl (New ''failed'') else Inr ''tun0'',
              x)),
      SetupTUN = (\<lambda>tun ip gw. outcome TheSetupTUN),
      closeTUN = (\<lambda>tun. outcome TheCloseTUN),
      closeConnection = (\<lambda>conn. outcome TheCloseConn),
      relay = (\<lambda>conn tun x. x)\<rparr>"

definition newPool :: pool where
  "newPool = \<lparr>cursor = 0, reserved = [], allocated = []\<rparr>"

definition newServer :: "string \<Rightarrow> pool Server" where
  "newServer pass =
     \<lparr>cfg_Passcode = pass, lis = None, serveOnce = False, serveOnceRunning = False,
      ipGen = newPool,
      defaultNetworkInterface = ''eth0'', ipv4ForwardingVal = ''0'', ipv6ForwardingVal = ''0''\<rparr>"

definition scriptWorld ::
  "error + ClientHello \<Rightarrow> (error + Conn) list \<Rightarrow> collaborator list \<Rightarrow> (script, nat) world" where
  "scriptWorld hello acc fl = \<lparr>ext = \<lparr>incoming = hello, accepts = acc, failing = fl\<rparr>, trace = []\<rparr>"


text \<open>The four IPv4 octets of a 16-byte address, as numbers.\<close>

definition octets :: "IP \<Rightarrow> nat list" where
  "octets ip = map unat (drop 12 ip)"

text \<open>
  Handshakes on connection 7 with a server whose passcode is \<^verbatim>\<open>secret\<close>: one that
  succeeds, one with a wrong passcode, one whose hello cannot be decoded, one that declares
  a malformed address, one on an exhausted pool and one whose last write fails.
\<close>

definition hello1 :: ClientHello where
  "hello1 = \<lparr>Passcode = ''secret'', UnavailablePrivateIPs = [IPv4 192 168 0 1]\<rparr>"

definition handshakeOK ::
  "(error + IP \<times> IP) \<times> pool Server \<times> (script, nat) world" where
  "handshakeOK = shakeHands scriptEnv 7 (newServer ''secret'') (scriptWorld (Inr hello1) [] [])"

definition handshakeWrongPasscode ::
  "(error + IP \<times> IP) \<times> pool Server \<times> (script, nat) world" where
  "handshakeWrongPasscode =
     shakeHands scriptEnv 7 (newServer ''secret'')
       (scriptWorld (Inr (hello1\<lparr>Passcode := ''guess''\<rparr>)) [] [])"

definition handshakeGarbage ::
  "(error + IP \<times> IP) \<times> pool Server \<times> (script, nat) world" where
  "handshakeGarbage =
     shakeHands scriptEnv 7 (newServer ''secret'')
       (scriptWorld (Inl (New ''unexpected EOF'')) [] [])"

definition handshakeMalformed ::
  "(error + IP \<times> IP) \<times> pool Server \<times> (script, nat) world" where
  "handshakeMalformed =
     shakeHands scriptEnv 7 (newServer ''secret'')
       (scriptWorld (Inr (hello1\<lparr>UnavailablePrivateIPs := [[10, 0, 0]]\<rparr>)) [] [])"

definition handshakeExhausted ::
  "(error + IP \<times> IP) \<times> pool Server \<times> (script, nat) world" where
  "handshakeExhausted =
     shakeHands scriptEnv 7 ((newServer ''secret'')\<lparr>ipGen := newPool\<lparr>cursor := 32\<rparr>\<rparr>)
       (scriptWorld (Inr hello1) [] [])"

definition handshakeSendFails ::
  "(error + IP \<times> IP) \<times> pool Server \<times> (script, nat) world" where
  "handshakeSendFails =
     shakeHands scriptEnv 7 (newServer ''secret'') (scriptWorld (Inr hello1) [] [TheWriteJSON])"

text \<open>
  A pool that hands out the subnet 10.0.0.254, to run the arithmetic of \<^verbatim>\<open>shakeHands\<close> on
  a last octet above 251.
\<close>

definition wrapEnv :: "(script, pool, nat) env" where
  "wrapEnv = scriptEnv\<lparr>Next := (\<lambda>p. (Inr (IPv4 10 0 0 254), p))\<rparr>"

definition wrapHandshake ::
  "(error + IP \<times> IP) \<times> pool Server \<times> (script, nat) world" where
  "wrapHandshake = shakeHands wrapEnv 7 (newServer ''secret'') (scriptWorld (Inr hello1) [] [])"

text \<open>
  The task of connection 7 when every collaborator succeeds, and two runs of \<^verbatim>\<open>Serve\<close>
  on listener 5, which accepts connection 7 and is then closed; in the second run
  \<^verbatim>\<open>DisableIPMasquerading\<close> fails.
\<close>

definition serveConnRun :: "pool Server \<times> (script, nat) world" where
  "serveConnRun = serveConn scriptEnv 7 (newServer ''secret'') (scriptWorld (Inr hello1) [] [])"


definition serveRunFailing :: "(error \<times> pool Server \<times> (script, nat) world) option" where
  "serveRunFailing =
     Serve scriptEnv 2 5 (newServer ''secret'')
       (scriptWorld (Inr hello1) [Inr 7] [TheDisableIPMasquerading])"

text \<open>
  A handshake that declares a valid address, then a malformed one, then another valid one;
  and the first call of \<^verbatim>\<open>Serve\<close> on listener 5 at the moment when it has accepted
  connection 7 and waits in \<^verbatim>\<open>Accept\<close>.
\<close>

definition handshakeMalformedLater ::
  "(error + IP \<times> IP) \<times> pool Server \<times> (script, nat) world" where
  "handshakeMalformedLater =
     shakeHands scriptEnv 7 (newServer ''secret'')
       (scriptWorld
          (Inr (hello1\<lparr>UnavailablePrivateIPs := [IPv4 192 168 0 1, [10, 0, 0], IPv4 192 168 0 17]\<rparr>))
          [] [])"




section \<open>Properties of shakeHands\<close>

subsection \<open>Reading the trace of a handshake\<close>

lemma sentHellos_append: "sentHellos (xs @ ys) = sentHellos xs @ sentHellos ys"
  by (induction xs rule: sentHellos.induct) simp_all

lemma sendHello_trace:
  "trace (sendHello env conn h w) =
     trace w @ sendHelloEvents conn h (fst (WriteJSON env conn h (ext w)))"
  by (cases "WriteJSON env conn h (ext w)")
     (auto simp: sendHello_def call_def logf_def sendHelloEvents_def split: option.splits)

lemma sendHello_ext:
  "ext (sendHello env conn h w) = snd (WriteJSON env conn h (ext w))"
  by (cases "WriteJSON env conn h (ext w)")
     (auto simp: sendHello_def call_def logf_def split: option.splits)

lemma reserveAll_cases:
  assumes "reserveAll env conn sh ips s w = (res, s', w')"
  shows "\<exists>q. s' = s\<lparr>ipGen := q\<rparr> \<and>
      ((res = None \<and> ext w' = ext w \<and> trace w' = trace w @ map (\<lambda>ip. CallReserve ip None) ips)
       \<or> (\<exists>ips1 ip rest e wr. ips = ips1 @ ip # rest \<and> res = Some (Errorf ''error reserving IP %s: %w'' e)
            \<and> trace w' = trace w @ map (\<lambda>ip. CallReserve ip None) ips1 @ CallReserve ip (Some e) #
                 sendHelloEvents conn (sh\<lparr>Status := HandshakeStatusBadRequest env\<rparr>) wr))"
  using assms
proof (induction ips arbitrary: s w)
  case Nil
  then show ?case by (intro exI [of _ "ipGen s"]) simp
next
  case (Cons ip ips)
  obtain r p where R: "Reserve env ip (ipGen s) = (r, p)" by (cases "Reserve env ip (ipGen s)")
  show ?case
  proof (cases r)
    case None
    let ?s1 = "s\<lparr>ipGen := p\<rparr>" and ?w1 = "w\<lparr>trace := trace w @ [CallReserve ip None]\<rparr>"
    from Cons.prems R None have "reserveAll env conn sh ips ?s1 ?w1 = (res, s', w')"
      by (simp add: callReserve_def)
    from Cons.IH [OF this] obtain q where Q: "s' = ?s1\<lparr>ipGen := q\<rparr>"
      and D: "(res = None \<and> ext w' = ext ?w1 \<and> trace w' = trace ?w1 @ map (\<lambda>ip. CallReserve ip None) ips)
       \<or> (\<exists>ips1 ip rest e wr. ips = ips1 @ ip # rest \<and> res = Some (Errorf ''error reserving IP %s: %w'' e)
            \<and> trace w' = trace ?w1 @ map (\<lambda>ip. CallReserve ip None) ips1 @ CallReserve ip (Some e) #
                 sendHelloEvents conn (sh\<lparr>Status := HandshakeStatusBadRequest env\<rparr>) wr)"
      by blast
    from Q have Q': "s' = s\<lparr>ipGen := q\<rparr>" by simp
    from D show ?thesis
    proof (elim disjE exE conjE)
      assume "res = None" "ext w' = ext ?w1" "trace w' = trace ?w1 @ map (\<lambda>ip. CallReserve ip None) ips"
      with Q' show ?thesis by (intro exI [of _ q]) simp
    next
      fix ips1 ip' rest e wr
      assume "ips = ips1 @ ip' # rest" "res = Some (Errorf ''error reserving IP %s: %w'' e)"
        "trace w' = trace ?w1 @ map (\<lambda>ip. CallReserve ip None) ips1 @ CallReserve ip' (Some e) #
                 sendHelloEvents conn (sh\<lparr>Status := HandshakeStatusBadRequest env\<rparr>) wr"
      then have "ip # ips = (ip # ips1) @ ip' # rest \<and> res = Some (Errorf ''error reserving IP %s: %w'' e)
            \<and> trace w' = trace w @ map (\<lambda>ip. CallReserve ip None) (ip # ips1) @ CallReserve ip' (Some e) #
                 sendHelloEvents conn (sh\<lparr>Status := HandshakeStatusBadRequest env\<rparr>) wr" by simp
      with Q' show ?thesis by blast
    qed
  next
    case (Some e)
    with Cons.prems R have "s' = s\<lparr>ipGen := p\<rparr> \<and> ip # ips = [] @ ip # ips \<and> res = Some (Errorf ''error reserving IP %s: %w'' e)
            \<and> trace w' = trace w @ map (\<lambda>ip. CallReserve ip None) [] @ CallReserve ip (Some e) #
                 sendHelloEvents conn (sh\<lparr>Status := HandshakeStatusBadRequest env\<rparr>)
                   (fst (WriteJSON env conn (sh\<lparr>Status := HandshakeStatusBadRequest env\<rparr>) (ext w)))"
      by (auto simp: callReserve_def sendHello_trace)
    then show ?thesis by blast
  qed
qed

lemma newEvents_append: "trace w' = trace w @ evs \<Longrightarrow> newEvents w w' = evs"
  by (simp add: newEvents_def)

lemma shakeHands_cases:
  assumes "shakeHands env conn s w = (r, s', w')"
  obtains
    (ReadFailed) err where
      "fst (ReadJSON env conn (ext w)) = Inl err"
      "r = Inl (Errorf ''error reading client hello: %w'' err)" "s' = s"
      "trace w' = trace w @ [CallReadJSON conn (Inl err)]"
  | (Forbidden) cHello wr where
      "fst (ReadJSON env conn (ext w)) = Inr cHello"
      "cfg_Passcode s \<noteq> []" "Passcode cHello \<noteq> cfg_Passcode s"
      "r = Inl (New ''got wrong passcode from client'')" "s' = s"
      "trace w' = trace w @ helloEvents conn cHello @
         sendHelloEvents conn ((zeroHello env)\<lparr>Status := HandshakeStatusForbidden env\<rparr>) wr"
  | (BadRequest) cHello passed ip rest e wr q where
      "fst (ReadJSON env conn (ext w)) = Inr cHello"
      "cfg_Passcode s = [] \<or> Passcode cHello = cfg_Passcode s"
      "UnavailablePrivateIPs cHello = passed @ ip # rest"
      "r = Inl (Errorf ''error reserving IP %s: %w'' e)" "s' = s\<lparr>ipGen := q\<rparr>"
      "trace w' = trace w @ helloEvents conn cHello @ map (\<lambda>ip. CallReserve ip None) passed @
         CallReserve ip (Some e) #
         sendHelloEvents conn ((zeroHello env)\<lparr>Status := HandshakeStatusBadRequest env\<rparr>) wr"
  | (NoFreeIPs) cHello e p q wr where
      "fst (ReadJSON env conn (ext w)) = Inr cHello"
      "cfg_Passcode s = [] \<or> Passcode cHello = cfg_Passcode s"
      "Next env p = (Inl e, q)"
      "r = Inl (Errorf ''error getting free subnet IP: %w'' e)" "s' = s\<lparr>ipGen := q\<rparr>"
      "trace w' = trace w @ helloEvents conn cHello @
         map (\<lambda>ip. CallReserve ip None) (UnavailablePrivateIPs cHello) @
         CallNext (Inl e) #
         sendHelloEvents conn ((zeroHello env)\<lparr>Status := HandshakeNoFreeIPs env\<rparr>) wr"
  | (InternalError) cHello subnet e p q wr where
      "fst (ReadJSON env conn (ext w)) = Inr cHello"
      "cfg_Passcode s = [] \<or> Passcode cHello = cfg_Passcode s"
      "Next env p = (Inr subnet, q)" "fetchIPv4Octets env subnet = Inl e"
      "r = Inl (Errorf ''error breaking IP into octets: %w'' e)" "s' = s\<lparr>ipGen := q\<rparr>"
      "trace w' = trace w @ helloEvents conn cHello @
         map (\<lambda>ip. CallReserve ip None) (UnavailablePrivateIPs cHello) @
         CallNext (Inr subnet) #
         sendHelloEvents conn ((zeroHello env)\<lparr>Status := HandshakeStatusInternalError env\<rparr>) wr"
  | (SendFailed) cHello subnet o0 o1 o2 o3 p q e where
      "fst (ReadJSON env conn (ext w)) = Inr cHello"
      "cfg_Passcode s = [] \<or> Passcode cHello = cfg_Passcode s"
      "Next env p = (Inr subnet, q)" "fetchIPv4Octets env subnet = Inr (o0, o1, o2, o3)"
      "r = Inl (Errorf ''error finishing hadnshake: error sending server hello: %w'' e)"
      "s' = s\<lparr>ipGen := q\<rparr>"
      "trace w' = trace w @ helloEvents conn cHello @
         map (\<lambda>ip. CallReserve ip None) (UnavailablePrivateIPs cHello) @
         [CallNext (Inr subnet),
          CallWriteJSON conn ((zeroHello env)\<lparr>TUNIP := IPv4 o0 o1 o2 (o3 + 4),
             TUNGateway := IPv4 o0 o1 o2 (o3 + 3)\<rparr>) (Some e)]"
  | (Success) cHello subnet o0 o1 o2 o3 p q where
      "fst (ReadJSON env conn (ext w)) = Inr cHello"
      "cfg_Passcode s = [] \<or> Passcode cHello = cfg_Passcode s"
      "Next env p = (Inr subnet, q)" "fetchIPv4Octets env subnet = Inr (o0, o1, o2, o3)"
      "r = Inr (IPv4 o0 o1 o2 (o3 + 2), IPv4 o0 o1 o2 (o3 + 1))"
      "s' = s\<lparr>ipGen := q\<rparr>"
      "trace w' = trace w @ helloEvents conn cHello @
         map (\<lambda>ip. CallReserve ip None) (UnavailablePrivateIPs cHello) @
         [CallNext (Inr subnet),
          CallWriteJSON conn ((zeroHello env)\<lparr>TUNIP := IPv4 o0 o1 o2 (o3 + 4),
             TUNGateway := IPv4 o0 o1 o2 (o3 + 3)\<rparr>) None]"
proof -
  note defs = shakeHands_def call_def logf_def helloEvents_def Let_def
    sendHello_trace
  obtain rr x where RD: "ReadJSON env conn (ext w) = (rr, x)"
    by (cases "ReadJSON env conn (ext w)")
  show thesis
  proof (cases rr)
    case (Inl err)
    show thesis
      by (rule ReadFailed) (use assms RD Inl in \<open>auto simp: defs\<close>)
  next
    case (Inr cHello)
    let ?w2 = "\<lparr>ext = x, trace = trace w @ helloEvents conn cHello\<rparr>"
    show thesis
    proof (cases "cfg_Passcode s \<noteq> [] \<and> Passcode cHello \<noteq> cfg_Passcode s")
      case True
      show thesis
        by (rule Forbidden) (use assms RD Inr True in \<open>auto simp: defs\<close>)
    next
      case False
      obtain res s3 w3 where RA:
        "reserveAll env conn (zeroHello env) (UnavailablePrivateIPs cHello) s ?w2 = (res, s3, w3)"
        by (metis prod_cases3)
      from reserveAll_cases [OF RA] obtain q3 where Q3: "s3 = s\<lparr>ipGen := q3\<rparr>"
        and D: "(res = None \<and> ext w3 = ext ?w2 \<and>
                 trace w3 = trace ?w2 @ map (\<lambda>ip. CallReserve ip None) (UnavailablePrivateIPs cHello))
          \<or> (\<exists>passed ip rest e wr. UnavailablePrivateIPs cHello = passed @ ip # rest \<and>
                res = Some (Errorf ''error reserving IP %s: %w'' e) \<and>
                trace w3 = trace ?w2 @ map (\<lambda>ip. CallReserve ip None) passed @ CallReserve ip (Some e) #
                  sendHelloEvents conn ((zeroHello env)\<lparr>Status := HandshakeStatusBadRequest env\<rparr>) wr)"
        by blast
      from D show thesis
      proof (elim disjE exE conjE)
        fix passed ip rest e wr
        assume B: "UnavailablePrivateIPs cHello = passed @ ip # rest"
          "res = Some (Errorf ''error reserving IP %s: %w'' e)"
          "trace w3 = trace ?w2 @ map (\<lambda>ip. CallReserve ip None) passed @ CallReserve ip (Some e) #
              sendHelloEvents conn ((zeroHello env)\<lparr>Status := HandshakeStatusBadRequest env\<rparr>) wr"
        show thesis
          by (rule BadRequest [where q = q3 and passed = passed])
             (use assms RA RD Inr False Q3 B in \<open>auto simp: defs\<close>)
      next
        assume N: "res = None" "ext w3 = ext ?w2"
          "trace w3 = trace ?w2 @ map (\<lambda>ip. CallReserve ip None) (UnavailablePrivateIPs cHello)"
        obtain nr p where NX: "Next env q3 = (nr, p)"
          by (cases "Next env q3")
        let ?s4 = "s\<lparr>ipGen := p\<rparr>" and ?w4 = "w3\<lparr>trace := trace w3 @ [CallNext nr]\<rparr>"
        have CN: "callNext env s3 w3 = (nr, ?s4, ?w4)"
          using NX Q3 by (simp add: callNext_def)
        show thesis
        proof (cases nr)
          case (Inl e)
          show thesis
            by (rule NoFreeIPs [where p = q3 and q = p])
               (use assms RA N CN RD Inr False NX Inl in \<open>auto simp: defs\<close>)
        next
          case nrInr: (Inr subnet)
          show thesis
          proof (cases "fetchIPv4Octets env subnet")
            case (Inl e)
            show thesis
              by (rule InternalError [where p = q3 and q = p and subnet = subnet])
                 (use assms RA N CN RD Inr False NX nrInr Inl in \<open>auto simp: defs\<close>)
          next
            case fInr: (Inr octs)
            obtain o0 o1 o2 o3 where O: "octs = (o0, o1, o2, o3)"
              by (metis prod_cases4)
            let ?h = "(zeroHello env)\<lparr>TUNIP := IPv4 o0 o1 o2 (o3 + 4),
                                    TUNGateway := IPv4 o0 o1 o2 (o3 + 3)\<rparr>"
            obtain wr y where WR: "WriteJSON env conn ?h (ext ?w4) = (wr, y)"
              by (cases "WriteJSON env conn ?h (ext ?w4)")
            show thesis
            proof (cases wr)
              case None
              show thesis
                by (rule Success [where p = q3 and q = p and subnet = subnet])
                   (use assms RA N CN RD Inr False NX nrInr fInr O WR None in \<open>auto simp: defs\<close>)
            next
              case (Some e)
              show thesis
                by (rule SendFailed [where p = q3 and q = p and subnet = subnet])
                   (use assms RA N CN RD Inr False NX nrInr fInr O WR Some in \<open>auto simp: defs\<close>)
            qed
          qed
        qed
      qed
    qed
  qed
qed


lemma sentHellos_reserves [simp]: "sentHellos (map (\<lambda>ip. CallReserve ip r) ips) = []"
  by (induction ips) simp_all

lemma sentHellos_helloEvents [simp]: "sentHellos (helloEvents conn cHello) = []"
  by (simp add: helloEvents_def)

lemma sentHellos_sendHelloEvents [simp]: "sentHellos (sendHelloEvents conn h wr) = [h]"
  by (simp add: sendHelloEvents_def split: option.splits)

lemma poolCalls_reserves [simp]:
  "filter isPoolCall (map (\<lambda>ip. CallReserve ip r) ips) = map (\<lambda>ip. CallReserve ip r) ips"
  by (induction ips) simp_all

lemma poolCalls_helloEvents [simp]: "filter isPoolCall (helloEvents conn cHello) = []"
  by (simp add: helloEvents_def)

lemma poolCalls_sendHelloEvents [simp]: "filter isPoolCall (sendHelloEvents conn h wr) = []"
  by (simp add: sendHelloEvents_def split: option.splits)

lemma set_helloEvents:
  "set (helloEvents conn cHello) = {CallReadJSON conn (Inr cHello), Log Debug ''Got client hello: %v'' None}"
  by (simp add: helloEvents_def)

lemma set_sendHelloEvents:
  "set (sendHelloEvents conn h wr) \<subseteq> {CallWriteJSON conn h wr, Log Error ''Error sending server hello'' wr}"
  by (auto simp: sendHelloEvents_def split: option.splits)

lemma Next_notin_send [simp]: "CallNext x \<notin> set (sendHelloEvents conn h wr)"
  using set_sendHelloEvents [of conn h wr] by auto

lemma Reserve_notin_send [simp]: "CallReserve ip r \<notin> set (sendHelloEvents conn h wr)"
  using set_sendHelloEvents [of conn h wr] by auto

lemma Write_in_send [simp]:
  "CallWriteJSON c h' r \<in> set (sendHelloEvents conn h wr) \<longleftrightarrow> c = conn \<and> h' = h \<and> r = wr"
  by (auto simp: sendHelloEvents_def split: option.splits)

lemma octets_IPv4: "octets (IPv4 a b c d) = [unat a, unat b, unat c, unat d]"
  by (simp add: octets_def IPv4_def)

lemma Next_in_reserves [simp]: "CallNext x \<notin> set (map (\<lambda>ip. CallReserve ip r) ips)"
  by auto

lemma Write_in_reserves [simp]: "CallWriteJSON c h x \<notin> set (map (\<lambda>ip. CallReserve ip r) ips)"
  by auto

lemma Next_in_hello [simp]: "CallNext x \<notin> set (helloEvents conn cHello)"
  by (simp add: helloEvents_def)

lemma Reserve_in_hello [simp]: "CallReserve ip r \<notin> set (helloEvents conn cHello)"
  by (simp add: helloEvents_def)

lemma Write_in_hello [simp]: "CallWriteJSON c h x \<notin> set (helloEvents conn cHello)"
  by (simp add: helloEvents_def)



subsection \<open>Running the handshakes of the script\<close>

lemma nextFree_numeral:
  "nextFree (numeral n) c rs =
     (if c \<in> set rs then nextFree (pred_numeral n) (Suc c) rs else Some c)"
  by (simp add: numeral_eq_Suc)

lemma poolReserve_first:
  "poolReserve (IPv4 192 168 0 1) newPool = (None, newPool\<lparr>reserved := [0]\<rparr>)"
  by (simp add: poolReserve_def newPool_def IPv4_def blockBase_def)

lemma poolNext_second:
  "poolNext (newPool\<lparr>reserved := [0]\<rparr>) =
     (Inr (IPv4 192 168 0 8), \<lparr>cursor = 2, reserved = [0], allocated = [1]\<rparr>)"
  by (simp add: poolNext_def newPool_def IPv4_def blockBase_def nextFree_numeral)

lemma scriptOctets_second: "scriptOctets (IPv4 192 168 0 8) = Inr (192, 168, 0, 8)"
  by (simp add: scriptOctets_def IPv4_def)

lemmas run_defs = shakeHands_def call_def logf_def Let_def sendHello_def callReserve_def
  callNext_def scriptEnv_def scriptWorld_def newServer_def outcome_def zeroHello_def

lemma handshakeOK_eq:
  "handshakeOK =
     (Inr (IPv4 192 168 0 10, IPv4 192 168 0 9),
      (newServer ''secret'')\<lparr>ipGen := \<lparr>cursor = 2, reserved = [0], allocated = [1]\<rparr>\<rparr>,
      \<lparr>ext = \<lparr>incoming = Inr hello1, accepts = [], failing = []\<rparr>,
       trace = [CallReadJSON 7 (Inr hello1), Log Debug ''Got client hello: %v'' None,
                CallReserve (IPv4 192 168 0 1) None, CallNext (Inr (IPv4 192 168 0 8)),
                CallWriteJSON 7 \<lparr>Status = 0, TUNIP = IPv4 192 168 0 12,
                   TUNGateway = IPv4 192 168 0 11\<rparr> None]\<rparr>)"
  unfolding handshakeOK_def
  by (simp add: run_defs hello1_def poolReserve_first poolNext_second scriptOctets_second)

lemma handshakeOK_run:
  "shakeHands scriptEnv 7 (newServer ''secret'') (scriptWorld (Inr hello1) [] []) =
     (Inr (IPv4 192 168 0 10, IPv4 192 168 0 9), fst (snd handshakeOK), snd (snd handshakeOK))"
  using handshakeOK_eq by (simp add: handshakeOK_def)

lemma handshakeOK_next:
  "CallNext (Inr (IPv4 192 168 0 8))
     \<in> set (newEvents (scriptWorld (Inr hello1) [] []) (snd (snd handshakeOK)))"
  by (simp add: handshakeOK_eq newEvents_def scriptWorld_def)

lemma scriptEnv_octets_second:
  "fetchIPv4Octets scriptEnv (IPv4 192 168 0 8) = Inr (192, 168, 0, 8)"
  by (simp add: scriptEnv_def scriptOctets_second)

subsection \<open>The addresses of a successful handshake\<close>

text \<open>
  Claim C1. Whenever \<^verbatim>\<open>shakeHands\<close> succeeds and \<^verbatim>\<open>Next\<close> has returned the subnet whose
  octets are \<open>(b0, b1, b2, b3)\<close>, the one hello handed to \<^verbatim>\<open>WriteJSON\<close> carries the
  subnet address plus 4 as \<open>TUNIP\<close> and the subnet address plus 3 as \<open>TUNGateway\<close>, and the
  caller receives the subnet address plus 2 as its own TUN address and the subnet address
  plus 1 as its gateway. As in the comment of the source, "subnet IP + k" adds \<open>k\<close> to the
  last octet; the octet is a \<^verbatim>\<open>uint8\<close>.
\<close>

theorem shakeHands_success_addresses:
  assumes "shakeHands env conn s w = (Inr (tunIP, tunGateway), s', w')"
    and "CallNext (Inr subnet) \<in> set (newEvents w w')"
    and "fetchIPv4Octets env subnet = Inr (b0, b1, b2, b3)"
  shows "sentHellos (newEvents w w') =
           [\<lparr>Status = zeroStatus env, TUNIP = IPv4 b0 b1 b2 (b3 + 4),
             TUNGateway = IPv4 b0 b1 b2 (b3 + 3)\<rparr>]
         \<and> tunIP = IPv4 b0 b1 b2 (b3 + 2) \<and> tunGateway = IPv4 b0 b1 b2 (b3 + 1)"
  using assms(1)
proof (cases rule: shakeHands_cases)
  case (Success cHello subnet' o0 o1 o2 o3 p q)
  note E = newEvents_append [OF Success(7)]
  with assms(2) have "subnet = subnet'"
    by auto
  with Success(4) assms(3) have "o0 = b0" "o1 = b1" "o2 = b2" "o3 = b3" by simp_all
  with Success(5) E show ?thesis
    by (simp add: sentHellos_append zeroHello_def)
qed simp_all

theorem shakeHands_success_addresses_witness:
  "fst handshakeOK = Inr (IPv4 192 168 0 10, IPv4 192 168 0 9)
   \<and> CallNext (Inr (IPv4 192 168 0 8))
        \<in> set (newEvents (scriptWorld (Inr hello1) [] []) (snd (snd handshakeOK)))
   \<and> fetchIPv4Octets scriptEnv (IPv4 192 168 0 8) = Inr (192, 168, 0, 8)
   \<and> sentHellos (newEvents (scriptWorld (Inr hello1) [] []) (snd (snd handshakeOK))) =
        [\<lparr>Status = 0, TUNIP = IPv4 192 168 0 12, TUNGateway = IPv4 192 168 0 11\<rparr>]"
proof -
  have zs: "zeroStatus scriptEnv = 0"
    by (simp add: scriptEnv_def)
  from shakeHands_success_addresses [OF handshakeOK_run handshakeOK_next scriptEnv_octets_second]
    handshakeOK_next scriptEnv_octets_second zs
  show ?thesis by (simp add: handshakeOK_eq)
qed

lemma scriptOctets_wrap: "scriptOctets (IPv4 10 0 0 254) = Inr (10, 0, 0, 254)"
  by (simp add: scriptOctets_def IPv4_def)

lemma u8_wrap: "(256 :: u8) = 0" "(257 :: u8) = 1" "(258 :: u8) = 2"
  by simp_all

lemma wrapHandshake_eq:
  "wrapHandshake =
     (Inr (IPv4 10 0 0 0, IPv4 10 0 0 255),
      (newServer ''secret'')\<lparr>ipGen := newPool\<lparr>reserved := [0]\<rparr>\<rparr>,
      \<lparr>ext = \<lparr>incoming = Inr hello1, accepts = [], failing = []\<rparr>,
       trace = [CallReadJSON 7 (Inr hello1), Log Debug ''Got client hello: %v'' None,
                CallReserve (IPv4 192 168 0 1) None, CallNext (Inr (IPv4 10 0 0 254)),
                CallWriteJSON 7 \<lparr>Status = 0, TUNIP = IPv4 10 0 0 2,
                   TUNGateway = IPv4 10 0 0 1\<rparr> None]\<rparr>)"
  unfolding wrapHandshake_def wrapEnv_def
  by (simp add: run_defs hello1_def poolReserve_first scriptOctets_wrap u8_wrap)

lemma poolReserve_malformed:
  "poolReserve [10, 0, 0] newPool = (Some (New ''malformed address''), newPool)"
  by (simp add: poolReserve_def)

lemma poolNext_exhausted:
  "poolNext (newPool\<lparr>cursor := 32, reserved := [0]\<rparr>) =
     (Inl (New ''no free IPs left''), newPool\<lparr>cursor := 32, reserved := [0]\<rparr>)"
  by (simp add: poolNext_def newPool_def)

lemma poolReserve_exhausted:
  "poolReserve (IPv4 192 168 0 1) (newPool\<lparr>cursor := 32\<rparr>) =
     (None, newPool\<lparr>cursor := 32, reserved := [0]\<rparr>)"
  by (simp add: poolReserve_def newPool_def IPv4_def blockBase_def)

lemma handshakeMalformed_eq:
  "handshakeMalformed =
     (Inl (Errorf ''error reserving IP %s: %w'' (New ''malformed address'')),
      newServer ''secret'',
      \<lparr>ext = \<lparr>incoming = Inr (hello1\<lparr>UnavailablePrivateIPs := [[10, 0, 0]]\<rparr>),
              accepts = [], failing = []\<rparr>,
       trace = [CallReadJSON 7 (Inr (hello1\<lparr>UnavailablePrivateIPs := [[10, 0, 0]]\<rparr>)),
                Log Debug ''Got client hello: %v'' None,
                CallReserve [10, 0, 0] (Some (New ''malformed address'')),
                CallWriteJSON 7 \<lparr>Status = 1, TUNIP = [], TUNGateway = []\<rparr> None]\<rparr>)"
  unfolding handshakeMalformed_def
  by (simp add: run_defs hello1_def poolReserve_malformed)

lemma handshakeExhausted_eq:
  "handshakeExhausted =
     (Inl (Errorf ''error getting free subnet IP: %w'' (New ''no free IPs left'')),
      (newServer ''secret'')\<lparr>ipGen := newPool\<lparr>cursor := 32, reserved := [0]\<rparr>\<rparr>,
      \<lparr>ext = \<lparr>incoming = Inr hello1, accepts = [], failing = []\<rparr>,
       trace = [CallReadJSON 7 (Inr hello1), Log Debug ''Got client hello: %v'' None,
                CallReserve (IPv4 192 168 0 1) None,
                CallNext (Inl (New ''no free IPs left'')),
                CallWriteJSON 7 \<lparr>Status = 2, TUNIP = [], TUNGateway = []\<rparr> None]\<rparr>)"
  unfolding handshakeExhausted_def
  by (simp add: run_defs hello1_def poolReserve_exhausted poolNext_exhausted)

lemma handshakeSendFails_eq:
  "handshakeSendFails =
     (Inl (Errorf ''error finishing hadnshake: error sending server hello: %w'' (New ''failed'')),
      (newServer ''secret'')\<lparr>ipGen := \<lparr>cursor = 2, reserved = [0], allocated = [1]\<rparr>\<rparr>,
      \<lparr>ext = \<lparr>incoming = Inr hello1, accepts = [], failing = [TheWriteJSON]\<rparr>,
       trace = [CallReadJSON 7 (Inr hello1), Log Debug ''Got client hello: %v'' None,
                CallReserve (IPv4 192 168 0 1) None, CallNext (Inr (IPv4 192 168 0 8)),
                CallWriteJSON 7 \<lparr>Status = 0, TUNIP = IPv4 192 168 0 12,
                   TUNGateway = IPv4 192 168 0 11\<rparr> (Some (New ''failed''))]\<rparr>)"
  unfolding handshakeSendFails_def
  by (simp add: run_defs hello1_def poolReserve_first poolNext_second scriptOctets_second)

subsection \<open>The status of a successful handshake\<close>

text \<open>
  Claim C9. On the success path no statement assigns \<open>Status\<close>: the hello that is sent
  carries the zero value of \<^verbatim>\<open>HandshakeStatus\<close>. The client therefore reads the status OK
  exactly when OK is that zero value.
\<close>

theorem shakeHands_zero_status:
  assumes "shakeHands env conn s w = (Inr res, s', w')"
  shows "\<exists>h. sentHellos (newEvents w w') = [h] \<and> Status h = zeroStatus env
           \<and> (Status h = HandshakeStatusOK env \<longleftrightarrow> HandshakeStatusOK env = zeroStatus env)"
  using assms
proof (cases rule: shakeHands_cases)
  case (Success cHello subnet o0 o1 o2 o3 p q)
  from newEvents_append [OF Success(7)] show ?thesis
    by (auto simp: sentHellos_append zeroHello_def)
qed simp_all

theorem shakeHands_zero_status_witness:
  "fst handshakeOK = Inr (IPv4 192 168 0 10, IPv4 192 168 0 9)
   \<and> map Status (sentHellos (newEvents (scriptWorld (Inr hello1) [] []) (snd (snd handshakeOK))))
       = [zeroStatus scriptEnv]
   \<and> HandshakeStatusOK scriptEnv = zeroStatus scriptEnv"
proof -
  from shakeHands_zero_status [OF handshakeOK_run]
  have "map Status (sentHellos (newEvents (scriptWorld (Inr hello1) [] []) (snd (snd handshakeOK))))
       = [zeroStatus scriptEnv]"
    by auto
  moreover have "fst handshakeOK = Inr (IPv4 192 168 0 10, IPv4 192 168 0 9)"
    by (simp add: handshakeOK_eq)
  moreover have "HandshakeStatusOK scriptEnv = zeroStatus scriptEnv"
    by (simp add: scriptEnv_def)
  ultimately show ?thesis by simp
qed

subsection \<open>Octet arithmetic\<close>

text \<open>
  Claim C10. The four addresses of a successful handshake keep the first three octets of
  the subnet and add 1, 2, 3 and 4 to the fourth as bytes, that is modulo 256. When the
  fourth octet of the subnet is 252 or more, the fourth octet of the client address is
  the subnet's minus 252 and the third octet is still that of the subnet: the sum wraps
  and nothing is carried.
\<close>

theorem shakeHands_octet_arithmetic:
  assumes "shakeHands env conn s w = (Inr (tunIP, tunGateway), s', w')"
    and "CallNext (Inr subnet) \<in> set (newEvents w w')"
    and "fetchIPv4Octets env subnet = Inr (b0, b1, b2, b3)"
  shows "octets tunGateway = [unat b0, unat b1, unat b2, (unat b3 + 1) mod 256]
       \<and> octets tunIP = [unat b0, unat b1, unat b2, (unat b3 + 2) mod 256]
       \<and> map (octets \<circ> TUNGateway) (sentHellos (newEvents w w')) =
            [[unat b0, unat b1, unat b2, (unat b3 + 3) mod 256]]
       \<and> map (octets \<circ> TUNIP) (sentHellos (newEvents w w')) =
            [[unat b0, unat b1, unat b2, (unat b3 + 4) mod 256]]
       \<and> (252 \<le> unat b3 \<longrightarrow>
            map (octets \<circ> TUNIP) (sentHellos (newEvents w w')) =
              [[unat b0, unat b1, unat b2, unat b3 - 252]])"
  using assms(1)
proof (cases rule: shakeHands_cases)
  case (Success cHello subnet' o0 o1 o2 o3 p q)
  note E = newEvents_append [OF Success(7)]
  with assms(2) have "subnet = subnet'"
    by auto
  with Success(4) assms(3) have O: "o0 = b0" "o1 = b1" "o2 = b2" "o3 = b3" by simp_all
  have W: "252 \<le> unat b3 \<Longrightarrow> (unat b3 + 4) mod 256 = unat b3 - 252"
  proof -
    assume a: "252 \<le> unat b3"
    have "unat b3 < 256" using unsigned_less [of b3, where ?'a = nat] by simp
    with a show ?thesis by (simp add: mod_if)
  qed
  from Success(5) E O W show ?thesis
    by (simp add: sentHellos_append zeroHello_def octets_IPv4 unat_word_ariths)
qed simp_all

theorem shakeHands_octet_arithmetic_witness:
  "fst wrapHandshake = Inr (IPv4 10 0 0 0, IPv4 10 0 0 255)
   \<and> CallNext (Inr (IPv4 10 0 0 254))
        \<in> set (newEvents (scriptWorld (Inr hello1) [] []) (snd (snd wrapHandshake)))
   \<and> fetchIPv4Octets wrapEnv (IPv4 10 0 0 254) = Inr (10, 0, 0, 254)
   \<and> (252::nat) \<le> unat (254 :: u8)
   \<and> map (octets \<circ> TUNIP)
        (sentHellos (newEvents (scriptWorld (Inr hello1) [] []) (snd (snd wrapHandshake)))) =
        [[10, 0, 0, 2]]
   \<and> map (octets \<circ> TUNGateway)
        (sentHellos (newEvents (scriptWorld (Inr hello1) [] []) (snd (snd wrapHandshake)))) =
        [[10, 0, 0, 1]]"
proof -
  have run: "shakeHands wrapEnv 7 (newServer ''secret'') (scriptWorld (Inr hello1) [] []) =
      (Inr (IPv4 10 0 0 0, IPv4 10 0 0 255), fst (snd wrapHandshake), snd (snd wrapHandshake))"
    using wrapHandshake_eq by (simp add: wrapHandshake_def)
  have nxt: "CallNext (Inr (IPv4 10 0 0 254))
        \<in> set (newEvents (scriptWorld (Inr hello1) [] []) (snd (snd wrapHandshake)))"
    by (simp add: wrapHandshake_eq newEvents_def scriptWorld_def)
  have oct: "fetchIPv4Octets wrapEnv (IPv4 10 0 0 254) = Inr (10, 0, 0, 254)"
    by (simp add: wrapEnv_def scriptEnv_def scriptOctets_wrap)
  from shakeHands_octet_arithmetic [OF run nxt oct] nxt oct
  show ?thesis by (simp add: wrapHandshake_eq)
qed

subsection \<open>A wrong passcode\<close>

text \<open>
  Claim C3. When the server has a passcode and the hello of the client carries another
  one, \<^verbatim>\<open>shakeHands\<close> hands one hello with the status Forbidden to \<^verbatim>\<open>WriteJSON\<close> and
  returns an error. It calls neither \<^verbatim>\<open>Reserve\<close> nor \<^verbatim>\<open>Next\<close>, and the server, with its
  pool, is as it was before.
\<close>

theorem shakeHands_wrong_passcode:
  assumes "fst (ReadJSON env conn (ext w)) = Inr cHello"
    and "cfg_Passcode s \<noteq> []"
    and "Passcode cHello \<noteq> cfg_Passcode s"
  shows "\<exists>w'. shakeHands env conn s w = (Inl (New ''got wrong passcode from client''), s, w')
           \<and> sentHellos (newEvents w w') =
               [\<lparr>Status = HandshakeStatusForbidden env, TUNIP = [], TUNGateway = []\<rparr>]
           \<and> filter isPoolCall (newEvents w w') = []"
proof -
  obtain r s' w' where R: "shakeHands env conn s w = (r, s', w')"
    by (metis prod_cases3)
  then show ?thesis
  proof (cases rule: shakeHands_cases)
    case (Forbidden cHello' wr)
    from newEvents_append [OF Forbidden(6)] Forbidden(4,5) R show ?thesis
      by (simp add: zeroHello_def sentHellos_append)
  qed (use assms in simp_all)
qed

theorem shakeHands_wrong_passcode_witness:
  "fst (ReadJSON scriptEnv 7 (ext (scriptWorld (Inr (hello1\<lparr>Passcode := ''guess''\<rparr>)) [] [])))
     = Inr (hello1\<lparr>Passcode := ''guess''\<rparr>)
   \<and> cfg_Passcode (newServer ''secret'') \<noteq> []
   \<and> Passcode (hello1\<lparr>Passcode := ''guess''\<rparr>) \<noteq> cfg_Passcode (newServer ''secret'')
   \<and> fst handshakeWrongPasscode = Inl (New ''got wrong passcode from client'')
   \<and> ipGen (fst (snd handshakeWrongPasscode)) = newPool
   \<and> map Status (sentHellos (newEvents (scriptWorld (Inr (hello1\<lparr>Passcode := ''guess''\<rparr>)) [] [])
        (snd (snd handshakeWrongPasscode)))) = [4]
   \<and> filter isPoolCall (newEvents (scriptWorld (Inr (hello1\<lparr>Passcode := ''guess''\<rparr>)) [] [])
        (snd (snd handshakeWrongPasscode))) = []"
proof -
  let ?h = "hello1\<lparr>Passcode := ''guess''\<rparr>"
  let ?w = "scriptWorld (Inr ?h) [] []"
  have h1: "fst (ReadJSON scriptEnv 7 (ext ?w)) = Inr ?h"
    by (simp add: scriptEnv_def scriptWorld_def)
  have h2: "cfg_Passcode (newServer ''secret'') \<noteq> []"
    by (simp add: newServer_def)
  have h3: "Passcode ?h \<noteq> cfg_Passcode (newServer ''secret'')"
    by (simp add: newServer_def)
  have st: "HandshakeStatusForbidden scriptEnv = 4" "ipGen (newServer ''secret'') = newPool"
    by (simp_all add: scriptEnv_def newServer_def)
  from shakeHands_wrong_passcode [OF h1 h2 h3] h1 h2 h3 st
  show ?thesis by (auto simp: handshakeWrongPasscode_def)
qed

subsection \<open>One hello for each attempt\<close>

text \<open>
  Claim C4. A call of \<^verbatim>\<open>shakeHands\<close> hands exactly one hello to \<^verbatim>\<open>WriteJSON\<close>, unless
  \<^verbatim>\<open>ReadJSON\<close> fails to deliver the hello of the client: then it returns the error of the
  read and sends nothing.
\<close>

theorem shakeHands_one_hello:
  assumes "shakeHands env conn s w = (r, s', w')"
  shows "case fst (ReadJSON env conn (ext w)) of
           Inl err \<Rightarrow> sentHellos (newEvents w w') = []
             \<and> r = Inl (Errorf ''error reading client hello: %w'' err)
         | Inr cHello \<Rightarrow> length (sentHellos (newEvents w w')) = 1"
  using assms
  by (cases rule: shakeHands_cases)
     (auto dest!: newEvents_append simp: sentHellos_append)

theorem shakeHands_one_hello_witness:
  "sentHellos (newEvents (scriptWorld (Inl (New ''unexpected EOF'')) [] [])
      (snd (snd handshakeGarbage))) = []
   \<and> fst handshakeGarbage = Inl (Errorf ''error reading client hello: %w'' (New ''unexpected EOF''))
   \<and> length (sentHellos (newEvents (scriptWorld (Inr (hello1\<lparr>UnavailablePrivateIPs := [[10, 0, 0]]\<rparr>)) [] [])
        (snd (snd handshakeMalformed)))) = 1"
proof -
  let ?w1 = "scriptWorld (Inl (New ''unexpected EOF'')) [] []"
  let ?w2 = "scriptWorld (Inr (hello1\<lparr>UnavailablePrivateIPs := [[10, 0, 0]]\<rparr>)) [] []"
  have r1: "shakeHands scriptEnv 7 (newServer ''secret'') ?w1 =
      (fst handshakeGarbage, fst (snd handshakeGarbage), snd (snd handshakeGarbage))"
    by (simp add: handshakeGarbage_def)
  have r2: "shakeHands scriptEnv 7 (newServer ''secret'') ?w2 =
      (fst handshakeMalformed, fst (snd handshakeMalformed), snd (snd handshakeMalformed))"
    by (simp add: handshakeMalformed_def)
  have i1: "fst (ReadJSON scriptEnv 7 (ext ?w1)) = Inl (New ''unexpected EOF'')"
    by (simp add: scriptEnv_def scriptWorld_def)
  have i2: "fst (ReadJSON scriptEnv 7 (ext ?w2)) = Inr (hello1\<lparr>UnavailablePrivateIPs := [[10, 0, 0]]\<rparr>)"
    by (simp add: scriptEnv_def scriptWorld_def)
  from shakeHands_one_hello [OF r1] shakeHands_one_hello [OF r2] i1 i2
  show ?thesis by simp
qed

subsection \<open>The status on a failure of the pool\<close>

lemma reserveAll_succeeds:
  "reserveEach env ips (ipGen s) = (None, p) \<Longrightarrow>
     reserveAll env conn sh ips s w =
       (None, s\<lparr>ipGen := p\<rparr>, w\<lparr>trace := trace w @ map (\<lambda>a. CallReserve a None) ips\<rparr>)"
proof (induction ips arbitrary: s w)
  case Nil
  then show ?case by simp
next
  case (Cons ip ips)
  obtain r q where R: "Reserve env ip (ipGen s) = (r, q)"
    by (cases "Reserve env ip (ipGen s)")
  with Cons.prems have N: "r = None" and E: "reserveEach env ips q = (None, p)"
    by (auto split: option.splits)
  from E have "reserveEach env ips (ipGen (s\<lparr>ipGen := q\<rparr>)) = (None, p)"
    by simp
  from Cons.IH [OF this, of "w\<lparr>trace := trace w @ [CallReserve ip None]\<rparr>"] R N
  show ?case by (simp add: callReserve_def)
qed

lemma reserveAll_fails:
  "reserveEach env passed (ipGen s) = (None, p) \<Longrightarrow> Reserve env ip p = (Some e, p') \<Longrightarrow>
     reserveAll env conn sh (passed @ ip # rest) s w =
       (Some (Errorf ''error reserving IP %s: %w'' e), s\<lparr>ipGen := p'\<rparr>,
        sendHello env conn (sh\<lparr>Status := HandshakeStatusBadRequest env\<rparr>)
          (w\<lparr>trace := trace w @ map (\<lambda>a. CallReserve a None) passed @
                [CallReserve ip (Some e)]\<rparr>))"
proof (induction passed arbitrary: s w)
  case Nil
  then show ?case by (simp add: callReserve_def)
next
  case (Cons a passed)
  obtain r q where R: "Reserve env a (ipGen s) = (r, q)"
    by (cases "Reserve env a (ipGen s)")
  with Cons.prems(1) have N: "r = None" and E: "reserveEach env passed q = (None, p)"
    by (auto split: option.splits)
  from E have "reserveEach env passed (ipGen (s\<lparr>ipGen := q\<rparr>)) = (None, p)"
    by simp
  from Cons.IH [OF this Cons.prems(2), of "w\<lparr>trace := trace w @ [CallReserve a None]\<rparr>"] R N
  show ?case by (simp add: callReserve_def)
qed

lemma reserveEach_first:
  "reserveEach scriptEnv [IPv4 192 168 0 1] newPool = (None, newPool\<lparr>reserved := [0]\<rparr>)"
  by (simp add: scriptEnv_def poolReserve_first)

lemma reserveEach_exhausted:
  "reserveEach scriptEnv [IPv4 192 168 0 1] (newPool\<lparr>cursor := 32\<rparr>) =
     (None, newPool\<lparr>cursor := 32, reserved := [0]\<rparr>)"
  by (simp add: scriptEnv_def poolReserve_exhausted)

lemma Reserve_malformed_later:
  "Reserve scriptEnv [10, 0, 0] (newPool\<lparr>reserved := [0]\<rparr>) =
     (Some (New ''malformed address''), newPool\<lparr>reserved := [0]\<rparr>)"
  by (simp add: scriptEnv_def poolReserve_def)

lemma Next_exhausted:
  "Next scriptEnv (newPool\<lparr>cursor := 32, reserved := [0]\<rparr>) =
     (Inl (New ''no free IPs left''), newPool\<lparr>cursor := 32, reserved := [0]\<rparr>)"
  by (simp add: scriptEnv_def poolNext_exhausted)

text \<open>
  Claim C5. Take a handshake whose hello is read and passes the passcode check. When the
  declared addresses up to some position are reserved and the \<^verbatim>\<open>Reserve\<close> of the next one
  fails, wherever in the list it stands, \<^verbatim>\<open>shakeHands\<close> returns the error of that
  reservation, the one hello it sends has the status BadRequest, and its calls to the
  pool are the reservations before, then the failed one: the later addresses are not
  reserved and \<^verbatim>\<open>Next\<close> is not called. When every declared address is reserved and \<^verbatim>\<open>Next\<close>
  fails, \<^verbatim>\<open>shakeHands\<close> returns the error of the allocation, the one hello it sends has the
  status NoFreeIPs, and its calls to the pool are the reservation of every declared
  address, in order, then the failed \<^verbatim>\<open>Next\<close>.
\<close>

theorem shakeHands_failure_status:
  assumes "shakeHands env conn s w = (r, s', w')"
    and "fst (ReadJSON env conn (ext w)) = Inr cHello"
    and "cfg_Passcode s = [] \<or> Passcode cHello = cfg_Passcode s"
  shows "(UnavailablePrivateIPs cHello = passed @ ip # rest
            \<and> reserveEach env passed (ipGen s) = (None, p)
            \<and> Reserve env ip p = (Some e, p') \<longrightarrow>
          r = Inl (Errorf ''error reserving IP %s: %w'' e)
            \<and> ipGen s' = p'
            \<and> sentHellos (newEvents w w') =
                [\<lparr>Status = HandshakeStatusBadRequest env, TUNIP = [], TUNGateway = []\<rparr>]
            \<and> filter isPoolCall (newEvents w w') =
                map (\<lambda>a. CallReserve a None) passed @ [CallReserve ip (Some e)])
       \<and> (reserveEach env (UnavailablePrivateIPs cHello) (ipGen s) = (None, p)
            \<and> Next env p = (Inl e, p') \<longrightarrow>
          r = Inl (Errorf ''error getting free subnet IP: %w'' e)
            \<and> ipGen s' = p'
            \<and> sentHellos (newEvents w w') =
                [\<lparr>Status = HandshakeNoFreeIPs env, TUNIP = [], TUNGateway = []\<rparr>]
            \<and> filter isPoolCall (newEvents w w') =
                map (\<lambda>a. CallReserve a None) (UnavailablePrivateIPs cHello) @ [CallNext (Inl e)])"
proof -
  obtain x where RD: "ReadJSON env conn (ext w) = (Inr cHello, x)"
    using assms(2) by (cases "ReadJSON env conn (ext w)") simp
  let ?w2 = "\<lparr>ext = x, trace = trace w @ helloEvents conn cHello\<rparr>"
  have SH: "shakeHands env conn s w =
      (case reserveAll env conn (zeroHello env) (UnavailablePrivateIPs cHello) s ?w2 of
         (Some err, s3, w3) \<Rightarrow> (Inl err, s3, w3)
       | (None, s3, w3) \<Rightarrow>
           (case callNext env s3 w3 of
              (Inl err, s4, w4) \<Rightarrow>
                (Inl (Errorf ''error getting free subnet IP: %w'' err), s4,
                 sendHello env conn ((zeroHello env)\<lparr>Status := HandshakeNoFreeIPs env\<rparr>) w4)
            | (Inr subnet, s4, w4) \<Rightarrow>
                (case fetchIPv4Octets env subnet of
                   Inl err \<Rightarrow>
                     (Inl (Errorf ''error breaking IP into octets: %w'' err), s4,
                      sendHello env conn
                        ((zeroHello env)\<lparr>Status := HandshakeStatusInternalError env\<rparr>) w4)
                 | Inr (o0, o1, o2, o3) \<Rightarrow>
                     let sTUNIP = IPv4 o0 o1 o2 (o3 + 2);
                         sTUNGateway = IPv4 o0 o1 o2 (o3 + 1);
                         cTUNIP = IPv4 o0 o1 o2 (o3 + 4);
                         cTUNGateway = IPv4 o0 o1 o2 (o3 + 3);
                         sHello' = (zeroHello env)\<lparr>TUNIP := cTUNIP, TUNGateway := cTUNGateway\<rparr>
                     in
                     (case call (WriteJSON env conn sHello') (CallWriteJSON conn sHello') w4 of
                        (Some err, w5) \<Rightarrow>
                          (Inl (Errorf
                             ''error finishing hadnshake: error sending server hello: %w''
                             err), s4, w5)
                      | (None, w5) \<Rightarrow> (Inr (sTUNIP, sTUNGateway), s4, w5)))))"
    using RD assms(3) by (auto simp: shakeHands_def call_def logf_def helloEvents_def Let_def)
  show ?thesis
  proof (intro conjI impI)
    assume A: "UnavailablePrivateIPs cHello = passed @ ip # rest
            \<and> reserveEach env passed (ipGen s) = (None, p)
            \<and> Reserve env ip p = (Some e, p')"
    then have RA: "reserveAll env conn (zeroHello env) (UnavailablePrivateIPs cHello) s ?w2 =
       (Some (Errorf ''error reserving IP %s: %w'' e), s\<lparr>ipGen := p'\<rparr>,
        sendHello env conn ((zeroHello env)\<lparr>Status := HandshakeStatusBadRequest env\<rparr>)
          (?w2\<lparr>trace := trace ?w2 @ map (\<lambda>a. CallReserve a None) passed @
                [CallReserve ip (Some e)]\<rparr>))"
      using reserveAll_fails [of env passed s p ip e p' conn "zeroHello env" rest ?w2] by simp
    from assms(1) have R: "r = Inl (Errorf ''error reserving IP %s: %w'' e)"
      "s' = s\<lparr>ipGen := p'\<rparr>"
      "w' = sendHello env conn ((zeroHello env)\<lparr>Status := HandshakeStatusBadRequest env\<rparr>)
          (?w2\<lparr>trace := trace ?w2 @ map (\<lambda>a. CallReserve a None) passed @
                [CallReserve ip (Some e)]\<rparr>)"
      unfolding SH RA by simp_all
    from R(3) have "newEvents w w' = helloEvents conn cHello @
        map (\<lambda>a. CallReserve a None) passed @ CallReserve ip (Some e) #
        sendHelloEvents conn ((zeroHello env)\<lparr>Status := HandshakeStatusBadRequest env\<rparr>)
          (fst (WriteJSON env conn ((zeroHello env)\<lparr>Status := HandshakeStatusBadRequest env\<rparr>) x))"
      by (intro newEvents_append) (simp add: sendHello_trace)
    with R show "r = Inl (Errorf ''error reserving IP %s: %w'' e)" "ipGen s' = p'"
      "sentHellos (newEvents w w') =
                [\<lparr>Status = HandshakeStatusBadRequest env, TUNIP = [], TUNGateway = []\<rparr>]"
      "filter isPoolCall (newEvents w w') =
                map (\<lambda>a. CallReserve a None) passed @ [CallReserve ip (Some e)]"
      by (simp_all add: sentHellos_append zeroHello_def)
  next
    assume A: "reserveEach env (UnavailablePrivateIPs cHello) (ipGen s) = (None, p)
            \<and> Next env p = (Inl e, p')"
    let ?w3 = "?w2\<lparr>trace := trace ?w2 @ map (\<lambda>a. CallReserve a None) (UnavailablePrivateIPs cHello)\<rparr>"
    from A have RA: "reserveAll env conn (zeroHello env) (UnavailablePrivateIPs cHello) s ?w2 =
       (None, s\<lparr>ipGen := p\<rparr>, ?w3)"
      using reserveAll_succeeds [of env "UnavailablePrivateIPs cHello" s p conn "zeroHello env" ?w2]
      by simp
    from A have CN: "callNext env (s\<lparr>ipGen := p\<rparr>) ?w3 =
        (Inl e, s\<lparr>ipGen := p'\<rparr>, ?w3\<lparr>trace := trace ?w3 @ [CallNext (Inl e)]\<rparr>)"
      by (simp add: callNext_def)
    from assms(1) have R: "r = Inl (Errorf ''error getting free subnet IP: %w'' e)"
      "s' = s\<lparr>ipGen := p'\<rparr>"
      "w' = sendHello env conn ((zeroHello env)\<lparr>Status := HandshakeNoFreeIPs env\<rparr>)
          (?w3\<lparr>trace := trace ?w3 @ [CallNext (Inl e)]\<rparr>)"
      using SH RA CN by simp_all
    from R(3) have "newEvents w w' = helloEvents conn cHello @
        map (\<lambda>a. CallReserve a None) (UnavailablePrivateIPs cHello) @ CallNext (Inl e) #
        sendHelloEvents conn ((zeroHello env)\<lparr>Status := HandshakeNoFreeIPs env\<rparr>)
          (fst (WriteJSON env conn ((zeroHello env)\<lparr>Status := HandshakeNoFreeIPs env\<rparr>) x))"
      by (intro newEvents_append) (simp add: sendHello_trace)
    with R show "r = Inl (Errorf ''error getting free subnet IP: %w'' e)" "ipGen s' = p'"
      "sentHellos (newEvents w w') =
                [\<lparr>Status = HandshakeNoFreeIPs env, TUNIP = [], TUNGateway = []\<rparr>]"
      "filter isPoolCall (newEvents w w') =
                map (\<lambda>a. CallReserve a None) (UnavailablePrivateIPs cHello) @ [CallNext (Inl e)]"
      by (simp_all add: sentHellos_append zeroHello_def)
  qed
qed


theorem shakeHands_failure_status_witness:
  "UnavailablePrivateIPs (hello1\<lparr>UnavailablePrivateIPs :=
       [IPv4 192 168 0 1, [10, 0, 0], IPv4 192 168 0 17]\<rparr>) =
     [IPv4 192 168 0 1] @ [10, 0, 0] # [IPv4 192 168 0 17]
   \<and> reserveEach scriptEnv [IPv4 192 168 0 1] (ipGen (newServer ''secret'')) =
       (None, newPool\<lparr>reserved := [0]\<rparr>)
   \<and> Reserve scriptEnv [10, 0, 0] (newPool\<lparr>reserved := [0]\<rparr>) =
       (Some (New ''malformed address''), newPool\<lparr>reserved := [0]\<rparr>)
   \<and> fst handshakeMalformedLater =
       Inl (Errorf ''error reserving IP %s: %w'' (New ''malformed address''))
   \<and> map Status (sentHellos (newEvents
        (scriptWorld (Inr (hello1\<lparr>UnavailablePrivateIPs :=
           [IPv4 192 168 0 1, [10, 0, 0], IPv4 192 168 0 17]\<rparr>)) [] [])
        (snd (snd handshakeMalformedLater)))) = [HandshakeStatusBadRequest scriptEnv]
   \<and> filter isPoolCall (newEvents
        (scriptWorld (Inr (hello1\<lparr>UnavailablePrivateIPs :=
           [IPv4 192 168 0 1, [10, 0, 0], IPv4 192 168 0 17]\<rparr>)) [] [])
        (snd (snd handshakeMalformedLater))) =
       [CallReserve (IPv4 192 168 0 1) None,
        CallReserve [10, 0, 0] (Some (New ''malformed address''))]
   \<and> reserveEach scriptEnv (UnavailablePrivateIPs hello1)
        (ipGen ((newServer ''secret'')\<lparr>ipGen := newPool\<lparr>cursor := 32\<rparr>\<rparr>)) =
       (None, newPool\<lparr>cursor := 32, reserved := [0]\<rparr>)
   \<and> Next scriptEnv (newPool\<lparr>cursor := 32, reserved := [0]\<rparr>) =
       (Inl (New ''no free IPs left''), newPool\<lparr>cursor := 32, reserved := [0]\<rparr>)
   \<and> fst handshakeExhausted =
       Inl (Errorf ''error getting free subnet IP: %w'' (New ''no free IPs left''))
   \<and> map Status (sentHellos (newEvents (scriptWorld (Inr hello1) [] [])
        (snd (snd handshakeExhausted)))) = [HandshakeNoFreeIPs scriptEnv]
   \<and> filter isPoolCall (newEvents (scriptWorld (Inr hello1) [] [])
        (snd (snd handshakeExhausted))) =
       [CallReserve (IPv4 192 168 0 1) None, CallNext (Inl (New ''no free IPs left''))]"
proof -
  let ?h = "hello1\<lparr>UnavailablePrivateIPs := [IPv4 192 168 0 1, [10, 0, 0], IPv4 192 168 0 17]\<rparr>"
  let ?w1 = "scriptWorld (Inr ?h) [] []"
  let ?w2 = "scriptWorld (Inr hello1) [] []"
  let ?s2 = "(newServer ''secret'')\<lparr>ipGen := newPool\<lparr>cursor := 32\<rparr>\<rparr>"
  have r1: "shakeHands scriptEnv 7 (newServer ''secret'') ?w1 =
      (fst handshakeMalformedLater, fst (snd handshakeMalformedLater),
       snd (snd handshakeMalformedLater))"
    by (simp add: handshakeMalformedLater_def)
  have r2: "shakeHands scriptEnv 7 ?s2 ?w2 =
      (fst handshakeExhausted, fst (snd handshakeExhausted), snd (snd handshakeExhausted))"
    by (simp add: handshakeExhausted_def)
  have i1: "fst (ReadJSON scriptEnv 7 (ext ?w1)) = Inr ?h"
    and i2: "fst (ReadJSON scriptEnv 7 (ext ?w2)) = Inr hello1"
    by (simp_all add: scriptEnv_def scriptWorld_def)
  have p1: "cfg_Passcode (newServer ''secret'') = [] \<or>
      Passcode ?h = cfg_Passcode (newServer ''secret'')"
    and p2: "cfg_Passcode ?s2 = [] \<or> Passcode hello1 = cfg_Passcode ?s2"
    by (simp_all add: newServer_def hello1_def)
  have a1: "UnavailablePrivateIPs ?h = [IPv4 192 168 0 1] @ [10, 0, 0] # [IPv4 192 168 0 17]"
    by simp
  have a2: "reserveEach scriptEnv [IPv4 192 168 0 1] (ipGen (newServer ''secret'')) =
       (None, newPool\<lparr>reserved := [0]\<rparr>)"
    using reserveEach_first by (simp add: newServer_def)
  have b1: "reserveEach scriptEnv (UnavailablePrivateIPs hello1) (ipGen ?s2) =
       (None, newPool\<lparr>cursor := 32, reserved := [0]\<rparr>)"
    using reserveEach_exhausted by (simp add: hello1_def)
  note a3 = Reserve_malformed_later and b2 = Next_exhausted
  from shakeHands_failure_status [OF r1 i1 p1, of "[IPv4 192 168 0 1]" "[10, 0, 0]"
      "[IPv4 192 168 0 17]" "newPool\<lparr>reserved := [0]\<rparr>" "New ''malformed address''"
      "newPool\<lparr>reserved := [0]\<rparr>"] a1 a2 a3
  have c1: "fst handshakeMalformedLater =
       Inl (Errorf ''error reserving IP %s: %w'' (New ''malformed address''))"
    "map Status (sentHellos (newEvents ?w1 (snd (snd handshakeMalformedLater)))) =
       [HandshakeStatusBadRequest scriptEnv]"
    "filter isPoolCall (newEvents ?w1 (snd (snd handshakeMalformedLater))) =
       [CallReserve (IPv4 192 168 0 1) None,
        CallReserve [10, 0, 0] (Some (New ''malformed address''))]"
    by simp_all
  from shakeHands_failure_status [OF r2 i2 p2, of "[]" "[]" "[]"
      "newPool\<lparr>cursor := 32, reserved := [0]\<rparr>" "New ''no free IPs left''"
      "newPool\<lparr>cursor := 32, reserved := [0]\<rparr>"] b1 b2
  have c2: "fst handshakeExhausted =
       Inl (Errorf ''error getting free subnet IP: %w'' (New ''no free IPs left''))"
    "map Status (sentHellos (newEvents ?w2 (snd (snd handshakeExhausted)))) =
       [HandshakeNoFreeIPs scriptEnv]"
    "filter isPoolCall (newEvents ?w2 (snd (snd handshakeExhausted))) =
       [CallReserve (IPv4 192 168 0 1) None, CallNext (Inl (New ''no free IPs left''))]"
    by (simp_all add: hello1_def)
  from a1 a2 a3 b1 b2 c1 c2 show ?thesis by (intro conjI)
qed

subsection \<open>A failed write after the allocation\<close>

text \<open>
  Claim C8. When \<^verbatim>\<open>Next\<close> has returned a subnet whose octets could be read and the
  write of the hello then fails, \<^verbatim>\<open>shakeHands\<close> returns the error of the write, wrapped,
  to its caller. The allocation is not undone: the successful \<^verbatim>\<open>Next\<close> is the last call to
  the pool, and the pool of the server is the one that this call of \<^verbatim>\<open>Next\<close> left.
\<close>

theorem shakeHands_send_failure_keeps_allocation:
  assumes "shakeHands env conn s w = (r, s', w')"
    and "CallNext (Inr subnet) \<in> set (newEvents w w')"
    and "fetchIPv4Octets env subnet = Inr octs"
    and "CallWriteJSON conn h (Some e) \<in> set (newEvents w w')"
  shows "r = Inl (Errorf ''error finishing hadnshake: error sending server hello: %w'' e)
       \<and> (\<exists>p. Next env p = (Inr subnet, ipGen s'))
       \<and> last (filter isPoolCall (newEvents w w')) = CallNext (Inr subnet)"
  using assms
  by (cases rule: shakeHands_cases)
     (auto dest!: newEvents_append simp: sentHellos_append zeroHello_def)

theorem shakeHands_send_failure_keeps_allocation_witness:
  "CallNext (Inr (IPv4 192 168 0 8))
     \<in> set (newEvents (scriptWorld (Inr hello1) [] [TheWriteJSON]) (snd (snd handshakeSendFails)))
   \<and> fetchIPv4Octets scriptEnv (IPv4 192 168 0 8) = Inr (192, 168, 0, 8)
   \<and> CallWriteJSON 7 \<lparr>Status = 0, TUNIP = IPv4 192 168 0 12, TUNGateway = IPv4 192 168 0 11\<rparr>
        (Some (New ''failed''))
     \<in> set (newEvents (scriptWorld (Inr hello1) [] [TheWriteJSON]) (snd (snd handshakeSendFails)))
   \<and> fst handshakeSendFails =
       Inl (Errorf ''error finishing hadnshake: error sending server hello: %w'' (New ''failed''))
   \<and> allocated (ipGen (fst (snd handshakeSendFails))) = [1]
   \<and> last (filter isPoolCall (newEvents (scriptWorld (Inr hello1) [] [TheWriteJSON])
        (snd (snd handshakeSendFails)))) = CallNext (Inr (IPv4 192 168 0 8))"
proof -
  let ?w = "scriptWorld (Inr hello1) [] [TheWriteJSON]"
  have r: "shakeHands scriptEnv 7 (newServer ''secret'') ?w =
      (fst handshakeSendFails, fst (snd handshakeSendFails), snd (snd handshakeSendFails))"
    by (simp add: handshakeSendFails_def)
  have e1: "CallNext (Inr (IPv4 192 168 0 8)) \<in> set (newEvents ?w (snd (snd handshakeSendFails)))"
    by (simp add: handshakeSendFails_eq newEvents_def scriptWorld_def)
  have e2: "CallWriteJSON 7 \<lparr>Status = 0, TUNIP = IPv4 192 168 0 12, TUNGateway = IPv4 192 168 0 11\<rparr>
        (Some (New ''failed'')) \<in> set (newEvents ?w (snd (snd handshakeSendFails)))"
    by (simp add: handshakeSendFails_eq newEvents_def scriptWorld_def)
  have al: "allocated (ipGen (fst (snd handshakeSendFails))) = [1]"
    by (simp add: handshakeSendFails_eq)
  from shakeHands_send_failure_keeps_allocation [OF r e1 scriptEnv_octets_second e2]
    e1 e2 al scriptEnv_octets_second
  show ?thesis by simp
qed

section \<open>Properties of serveConn\<close>

lemma serveConnRun_eq:
  "serveConnRun =
     ((newServer ''secret'')\<lparr>ipGen := \<lparr>cursor = 2, reserved = [0], allocated = [1]\<rparr>\<rparr>,
      \<lparr>ext = \<lparr>incoming = Inr hello1, accepts = [], failing = []\<rparr>,
       trace = [CallReadJSON 7 (Inr hello1), Log Debug ''Got client hello: %v'' None,
                CallReserve (IPv4 192 168 0 1) None, CallNext (Inr (IPv4 192 168 0 8)),
                CallWriteJSON 7 \<lparr>Status = 0, TUNIP = IPv4 192 168 0 12,
                   TUNGateway = IPv4 192 168 0 11\<rparr> None,
                CallSetupSysPrivileges (Inr 1000), CallNewTUNDevice (Inr ''tun0''),
                Log Info ''Allocated TUN %s'' None,
                CallSetupTUN ''tun0'' (IPv4 192 168 0 10) (IPv4 192 168 0 9) None,
                CallReleaseSysPrivileges 1000 None, CallSetupSysPrivileges (Inr 1000),
                Relay 7 ''tun0'', CallCloseTUN ''tun0'' None,
                CallReleaseSysPrivileges 1000 None, CallCloseConn 7 None]\<rparr>)"
  unfolding serveConnRun_def serveConn_def handshakeOK_def [symmetric] handshakeOK_eq
  by (simp add: call_def logf_def Let_def scriptEnv_def outcome_def
        Server_releaseSysPrivileges_def closeConn_def)

text \<open>
  Claim C2. The claim asks that the privileges are held while the TUN device is created
  and set up, and not while the relay runs. In the task of connection 7, where every call
  succeeds, the privileges are released after \<^verbatim>\<open>SetupTUN\<close> and taken again at once, by the
  statement of line 208 that the comment above it describes as deferred: the relay starts
  and runs with the privileges held, and they are released only after it has ended.
\<close>

theorem serveConn_relay_with_privileges:
  "drop 9 (trace (snd serveConnRun)) =
     [CallReleaseSysPrivileges 1000 None, CallSetupSysPrivileges (Inr 1000), Relay 7 ''tun0'',
      CallCloseTUN ''tun0'' None, CallReleaseSysPrivileges 1000 None, CallCloseConn 7 None]
   \<and> relayPrivileged False (trace (snd serveConnRun))"
  by (simp add: serveConnRun_eq)

section \<open>Properties of Serve\<close>

subsection \<open>The traces of the deferred calls and of the accept loop\<close>

lemma release_trace:
  "trace (Server_releaseSysPrivileges env suid w) =
     trace w @ releaseEvents suid (fst (releaseSysPrivileges env suid (ext w)))"
  by (cases "releaseSysPrivileges env suid (ext w)")
     (auto simp: Server_releaseSysPrivileges_def call_def logf_def releaseEvents_def
           split: option.splits)

lemma release_ext:
  "ext (Server_releaseSysPrivileges env suid w) = snd (releaseSysPrivileges env suid (ext w))"
  by (cases "releaseSysPrivileges env suid (ext w)")
     (auto simp: Server_releaseSysPrivileges_def call_def logf_def split: option.splits)

lemma revertIPv4_trace:
  "trace (runDeferred env s DeferRevertIPv4Forwarding w) =
     trace w @ revertIPv4Events s (fst (SetIPv4ForwardingValue env (ipv4ForwardingVal s) (ext w)))"
  by (cases "SetIPv4ForwardingValue env (ipv4ForwardingVal s) (ext w)")
     (auto simp: call_def logf_def revertIPv4Events_def outcomeLog_def split: option.splits)

lemma revertIPv4_ext:
  "ext (runDeferred env s DeferRevertIPv4Forwarding w) =
     snd (SetIPv4ForwardingValue env (ipv4ForwardingVal s) (ext w))"
  by (cases "SetIPv4ForwardingValue env (ipv4ForwardingVal s) (ext w)")
     (auto simp: call_def logf_def split: option.splits)

lemma revertIPv6_trace:
  "trace (runDeferred env s DeferRevertIPv6Forwarding w) =
     trace w @ revertIPv6Events s (fst (SetIPv6ForwardingValue env (ipv6ForwardingVal s) (ext w)))"
  by (cases "SetIPv6ForwardingValue env (ipv6ForwardingVal s) (ext w)")
     (auto simp: call_def logf_def revertIPv6Events_def outcomeLog_def split: option.splits)

lemma revertIPv6_ext:
  "ext (runDeferred env s DeferRevertIPv6Forwarding w) =
     snd (SetIPv6ForwardingValue env (ipv6ForwardingVal s) (ext w))"
  by (cases "SetIPv6ForwardingValue env (ipv6ForwardingVal s) (ext w)")
     (auto simp: call_def logf_def split: option.splits)

lemma disableMasquerading_trace:
  "trace (runDeferred env s DeferDisableIPMasquerading w) =
     trace w @ disableMasqueradingEvents s
       (fst (DisableIPMasquerading env (defaultNetworkInterface s) (ext w)))"
  by (cases "DisableIPMasquerading env (defaultNetworkInterface s) (ext w)")
     (auto simp: call_def logf_def disableMasqueradingEvents_def outcomeLog_def
           split: option.splits)

lemma disableMasquerading_ext:
  "ext (runDeferred env s DeferDisableIPMasquerading w) =
     snd (DisableIPMasquerading env (defaultNetworkInterface s) (ext w))"
  by (cases "DisableIPMasquerading env (defaultNetworkInterface s) (ext w)")
     (auto simp: call_def logf_def split: option.splits)

lemma setupAgain_trace:
  "trace (runDeferred env s DeferSetupSysPrivileges w) =
     trace w @ setupAgainEvents (fst (setupSysPrivileges env (ext w)))"
  by (cases "setupSysPrivileges env (ext w)")
     (auto simp: call_def logf_def setupAgainEvents_def split: sum.splits)

lemma setupAgain_ext:
  "ext (runDeferred env s DeferSetupSysPrivileges w) = snd (setupSysPrivileges env (ext w))"
  by (cases "setupSysPrivileges env (ext w)")
     (auto simp: call_def logf_def split: sum.splits)

lemmas defer_simps = release_trace release_ext revertIPv4_trace revertIPv4_ext revertIPv6_trace
  revertIPv6_ext disableMasquerading_trace disableMasquerading_ext setupAgain_trace setupAgain_ext

lemma acceptLoop_trace:
  "acceptLoop env fuel l w = Some (err, w') \<Longrightarrow>
     \<exists>acc e. trace w' = trace w @ acc \<and> (\<forall>ev\<in>set acc. isAcceptEvent ev)
       \<and> err = Errorf ''failed to accept client connection: %w'' e"
proof (induction fuel arbitrary: w)
  case 0
  then show ?case by simp
next
  case (Suc n)
  obtain r x where A: "Accept env l (ext w) = (r, x)"
    by (cases "Accept env l (ext w)")
  show ?case
  proof (cases r)
    case (Inl e)
    with Suc.prems A have "trace w' = trace w @ [CallAccept l (Inl e)]"
      "err = Errorf ''failed to accept client connection: %w'' e"
      by (auto simp: call_def)
    then show ?thesis
      by (intro exI [of _ "[CallAccept l (Inl e)]"] exI [of _ e]) simp
  next
    case (Inr conn)
    let ?w1 = "\<lparr>ext = x, trace = trace w @ [CallAccept l (Inr conn), GoServeConn conn]\<rparr>"
    from Suc.prems A Inr have "acceptLoop env n l ?w1 = Some (err, w')"
      by (simp add: call_def)
    from Suc.IH [OF this] obtain acc e where
      "trace w' = trace ?w1 @ acc" "\<forall>ev\<in>set acc. isAcceptEvent ev"
      "err = Errorf ''failed to accept client connection: %w'' e"
      by blast
    then show ?thesis
      by (intro exI [of _ "[CallAccept l (Inr conn), GoServeConn conn] @ acc"] exI [of _ e]) simp
  qed
qed


lemma Serve_cases:
  assumes "Serve env fuel l s w = Some (err, s', w')"
  obtains
    (Already) "serveOnce s" "err = New ''already serving''" "s' = s" "w' = w"
  | (NoPrivileges) e where "\<not> serveOnce s"
      "err = Errorf ''failed to setup system privileges: %w'' e"
      "s' = s\<lparr>serveOnce := True\<rparr>"
      "trace w' = trace w @ [CallSetupSysPrivileges (Inl e)]"
  | (NoIPv4) suid e r4 where "\<not> serveOnce s"
      "err = Errorf ''error enabling IPv4 forwarding: %w'' e"
      "s' = s\<lparr>serveOnce := True\<rparr>"
      "trace w' = trace w @
         [CallSetupSysPrivileges (Inr suid), CallEnableIPv4Forwarding (Some e)] @
         releaseEvents suid r4"
  | (NoIPv6) suid e r3 r4 where "\<not> serveOnce s"
      "err = Errorf ''error enabling IPv6 forwarding: %w'' e"
      "s' = s\<lparr>serveOnce := True\<rparr>"
      "trace w' = trace w @
         [CallSetupSysPrivileges (Inr suid), CallEnableIPv4Forwarding None,
          Log Info ''Set IPv4 forwarding = 1'' None, CallEnableIPv6Forwarding (Some e)] @
         revertIPv4Events s r3 @ releaseEvents suid r4"
  | (NoMasquerading) suid e r2 r3 r4 where "\<not> serveOnce s"
      "err = Errorf ''error enabling IP masquerading for %s: %w'' e"
      "s' = s\<lparr>serveOnce := True\<rparr>"
      "trace w' = trace w @
         [CallSetupSysPrivileges (Inr suid), CallEnableIPv4Forwarding None,
          Log Info ''Set IPv4 forwarding = 1'' None, CallEnableIPv6Forwarding None,
          Log Info ''Set IPv6 forwarding = 1'' None,
          CallEnableIPMasquerading (defaultNetworkInterface s) (Some e)] @
         revertIPv6Events s r2 @ revertIPv4Events s r3 @ releaseEvents suid r4"
  | (Served) suid rr acc e r0 r1 r2 r3 r4 where "\<not> serveOnce s"
      "err = Errorf ''failed to accept client connection: %w'' e"
      "s' = s\<lparr>lis := Some l, serveOnce := True\<rparr>"
      "\<forall>ev\<in>set acc. isAcceptEvent ev"
      "trace w' = trace w @
         [CallSetupSysPrivileges (Inr suid), CallEnableIPv4Forwarding None,
          Log Info ''Set IPv4 forwarding = 1'' None, CallEnableIPv6Forwarding None,
          Log Info ''Set IPv6 forwarding = 1'' None,
          CallEnableIPMasquerading (defaultNetworkInterface s) None,
          Log Info ''Enabled IP masquerading'' None] @
         releaseEvents suid rr @ acc @ teardownEvents s suid r0 r1 r2 r3 r4"
proof (cases "serveOnce s")
  case True
  with assms show thesis
    by (intro Already) (simp_all add: Serve_def)
next
  case False
  from assms False have NR: "\<not> serveOnceRunning s"
    by (auto simp: Serve_def split: if_splits)
  note defs = Serve_def call_def logf_def Let_def defer_simps
  obtain r0 x0 where P: "setupSysPrivileges env (ext w) = (r0, x0)"
    by (cases "setupSysPrivileges env (ext w)")
  show thesis
  proof (cases r0)
    case (Inl e)
    show thesis
      by (rule NoPrivileges) (use assms False NR P Inl in \<open>auto simp: defs simp del: runDeferred.simps(4-7)\<close>)
  next
    case (Inr suid)
    obtain r1 x1 where E4: "EnableIPv4Forwarding env x0 = (r1, x1)"
      by (cases "EnableIPv4Forwarding env x0")
    show thesis
    proof (cases r1)
      case (Some e)
      show thesis
        by (rule NoIPv4) (use assms False NR P Inr E4 Some in \<open>auto simp: defs simp del: runDeferred.simps(4-7)\<close>)
    next
      case None
      obtain r2 x2 where E6: "EnableIPv6Forwarding env x1 = (r2, x2)"
        by (cases "EnableIPv6Forwarding env x1")
      show thesis
      proof (cases r2)
        case (Some e)
        show thesis
          by (rule NoIPv6) (use assms False NR P Inr E4 None E6 Some in \<open>auto simp: defs simp del: runDeferred.simps(4-7)\<close>)
      next
        case r2None: None
        obtain r3 x3 where EM: "EnableIPMasquerading env (defaultNetworkInterface s) x2 = (r3, x3)"
          by (cases "EnableIPMasquerading env (defaultNetworkInterface s) x2")
        show thesis
        proof (cases r3)
          case (Some e)
          show thesis
            by (rule NoMasquerading)
               (use assms False NR P Inr E4 None E6 r2None EM Some in \<open>auto simp: defs simp del: runDeferred.simps(4-7)\<close>)
        next
          case r3None: None
          let ?w7 = "\<lparr>ext = x3, trace = trace w @
             [CallSetupSysPrivileges (Inr suid), CallEnableIPv4Forwarding None,
              Log Info ''Set IPv4 forwarding = 1'' None, CallEnableIPv6Forwarding None,
              Log Info ''Set IPv6 forwarding = 1'' None,
              CallEnableIPMasquerading (defaultNetworkInterface s) None,
              Log Info ''Enabled IP masquerading'' None]\<rparr>"
          let ?w8 = "Server_releaseSysPrivileges env suid ?w7"
          obtain res where AL: "acceptLoop env fuel l ?w8 = res"
            by simp
          from assms False NR P Inr E4 None E6 r2None EM r3None AL
          obtain err9 w9 where R: "res = Some (err9, w9)" "err = err9"
            "s' = s\<lparr>lis := Some l, serveOnce := True\<rparr>"
            "w' = runDefers env (s\<lparr>lis := Some l\<rparr>)
                    [DeferSetupSysPrivileges, DeferDisableIPMasquerading,
                     DeferRevertIPv6Forwarding, DeferRevertIPv4Forwarding,
                     DeferReleaseSysPrivileges suid] w9"
            by (auto simp: Serve_def call_def logf_def Let_def split: option.splits)
          from acceptLoop_trace [OF AL [unfolded R(1)]] obtain acc e where
            A: "trace w9 = trace ?w8 @ acc" "\<forall>ev\<in>set acc. isAcceptEvent ev"
            "err9 = Errorf ''failed to accept client connection: %w'' e"
            by blast
          show thesis
            by (rule Served [where acc = acc])
               (use False R A in \<open>auto simp: defer_simps teardownEvents_def
                  revertIPv4Events_def revertIPv6Events_def disableMasqueradingEvents_def
                  simp del: runDeferred.simps(4-7)\<close>)
        qed
      qed
    qed
  qed
qed


lemma accept_events:
  "\<forall>ev\<in>set acc. isAcceptEvent ev \<Longrightarrow>
     filter isEnableCall acc = [] \<and> filter isRestoreCall acc = []"
proof (induction acc)
  case Nil
  then show ?case by simp
next
  case (Cons ev acc)
  then show ?case by (cases ev) simp_all
qed

lemma enable_release [simp]: "filter isEnableCall (releaseEvents suid r) = []"
  by (simp add: releaseEvents_def split: option.splits)

lemma restore_release [simp]: "filter isRestoreCall (releaseEvents suid r) = []"
  by (simp add: releaseEvents_def split: option.splits)

lemma enable_setupAgain [simp]: "filter isEnableCall (setupAgainEvents r) = []"
  by (simp add: setupAgainEvents_def split: sum.splits)

lemma restore_setupAgain [simp]: "filter isRestoreCall (setupAgainEvents r) = []"
  by (simp add: setupAgainEvents_def split: sum.splits)

lemma enable_outcomeLog [simp]: "\<not> isEnableCall (outcomeLog a b r)"
  by (simp add: outcomeLog_def split: option.splits)

lemma restore_outcomeLog [simp]: "\<not> isRestoreCall (outcomeLog a b r)"
  by (simp add: outcomeLog_def split: option.splits)

lemmas teardown_defs = teardownEvents_def revertIPv4Events_def revertIPv6Events_def
  disableMasqueradingEvents_def



lemma acceptLoop_numeral:
  "acceptLoop env (numeral n) l w =
     (case call (Accept env l) (CallAccept l) w of
        (Inl err, w1) \<Rightarrow> Some (Errorf ''failed to accept client connection: %w'' err, w1)
      | (Inr conn, w1) \<Rightarrow>
          acceptLoop env (pred_numeral n) l (w1\<lparr>trace := trace w1 @ [GoServeConn conn]\<rparr>))"
  by (simp add: numeral_eq_Suc)

lemmas serve_defs = Serve_def call_def logf_def Let_def scriptEnv_def scriptWorld_def
  newServer_def outcome_def Server_releaseSysPrivileges_def closeConn_def acceptLoop_numeral


lemma serveRunFailing_eq:
  "serveRunFailing =
     Some (Errorf ''failed to accept client connection: %w'' (New ''listener closed''),
       (newServer ''secret'')\<lparr>lis := Some 5, serveOnce := True\<rparr>,
       \<lparr>ext = \<lparr>incoming = Inr hello1, accepts = [], failing = [TheDisableIPMasquerading]\<rparr>,
        trace =
          [CallSetupSysPrivileges (Inr 1000), CallEnableIPv4Forwarding None,
           Log Info ''Set IPv4 forwarding = 1'' None, CallEnableIPv6Forwarding None,
           Log Info ''Set IPv6 forwarding = 1'' None, CallEnableIPMasquerading ''eth0'' None,
           Log Info ''Enabled IP masquerading'' None, CallReleaseSysPrivileges 1000 None,
           CallAccept 5 (Inr 7), GoServeConn 7, CallAccept 5 (Inl (New ''listener closed'')),
           CallSetupSysPrivileges (Inr 1000),
           CallDisableIPMasquerading ''eth0'' (Some (New ''failed'')),
           Log Error ''Error disabling IP masquerading for %s'' (Some (New ''failed'')),
           CallSetIPv6ForwardingValue ''0'' None, Log Info ''Set IPv6 forwarding = %s'' None,
           CallSetIPv4ForwardingValue ''0'' None, Log Info ''Set IPv4 forwarding = %s'' None,
           CallReleaseSysPrivileges 1000 None]\<rparr>)"
  unfolding serveRunFailing_def
  by (simp add: serve_defs)

subsection \<open>Serving once\<close>


lemma acceptLoop_accepted:
  "accepted env n l w = Some w' \<Longrightarrow> acceptLoop env (n + k) l w = acceptLoop env k l w'"
proof (induction n arbitrary: w)
  case 0
  then show ?case by simp
next
  case (Suc n)
  then show ?case
    by (auto split: prod.splits sum.splits)
qed



lemma serving_cases:
  assumes "serving env n l s w = Some (s1, w1)"
  obtains suid x3 where
    "\<not> serveOnce s" "\<not> serveOnceRunning s"
    "s1 = s\<lparr>lis := Some l, serveOnceRunning := True\<rparr>"
    "accepted env n l
       (Server_releaseSysPrivileges env suid
         \<lparr>ext = x3, trace = trace w @
            [CallSetupSysPrivileges (Inr suid), CallEnableIPv4Forwarding None,
             Log Info ''Set IPv4 forwarding = 1'' None, CallEnableIPv6Forwarding None,
             Log Info ''Set IPv6 forwarding = 1'' None,
             CallEnableIPMasquerading (defaultNetworkInterface s) None,
             Log Info ''Enabled IP masquerading'' None]\<rparr>) = Some w1"
    "\<And>fuel. Serve env fuel l s w =
       (case acceptLoop env fuel l
          (Server_releaseSysPrivileges env suid
            \<lparr>ext = x3, trace = trace w @
              [CallSetupSysPrivileges (Inr suid), CallEnableIPv4Forwarding None,
               Log Info ''Set IPv4 forwarding = 1'' None, CallEnableIPv6Forwarding None,
               Log Info ''Set IPv6 forwarding = 1'' None,
               CallEnableIPMasquerading (defaultNetworkInterface s) None,
               Log Info ''Enabled IP masquerading'' None]\<rparr>) of
          None \<Rightarrow> None
        | Some (err, w9) \<Rightarrow>
            Some (err, s\<lparr>lis := Some l, serveOnce := True\<rparr>,
                  runDefers env (s\<lparr>lis := Some l\<rparr>)
                    [DeferSetupSysPrivileges, DeferDisableIPMasquerading,
                     DeferRevertIPv6Forwarding, DeferRevertIPv4Forwarding,
                     DeferReleaseSysPrivileges suid] w9))"
proof -
  from assms have F: "\<not> serveOnce s" "\<not> serveOnceRunning s"
    by (auto simp: serving_def split: if_splits)
  obtain r0 x0 where P: "setupSysPrivileges env (ext w) = (r0, x0)"
    by (cases "setupSysPrivileges env (ext w)")
  obtain r1 x1 where E4: "EnableIPv4Forwarding env x0 = (r1, x1)"
    by (cases "EnableIPv4Forwarding env x0")
  obtain r2 x2 where E6: "EnableIPv6Forwarding env x1 = (r2, x2)"
    by (cases "EnableIPv6Forwarding env x1")
  obtain r3 x3 where EM: "EnableIPMasquerading env (defaultNetworkInterface s) x2 = (r3, x3)"
    by (cases "EnableIPMasquerading env (defaultNetworkInterface s) x2")
  from assms F P obtain suid where S: "r0 = Inr suid"
    by (cases r0) (auto simp: serving_def call_def)
  from assms F P S E4 have R1: "r1 = None"
    by (cases r1) (auto simp: serving_def call_def)
  from assms F P S E4 R1 E6 have R2: "r2 = None"
    by (cases r2) (auto simp: serving_def call_def logf_def Let_def)
  from assms F P S E4 R1 E6 R2 EM have R3: "r3 = None"
    by (cases r3) (auto simp: serving_def call_def logf_def Let_def)
  show thesis
  proof (rule that [of suid x3])
    show "\<not> serveOnce s" "\<not> serveOnceRunning s" by (fact F)+
    from assms F P S E4 R1 E6 R2 EM R3
    show "s1 = s\<lparr>lis := Some l, serveOnceRunning := True\<rparr>"
      by (auto simp: serving_def call_def logf_def Let_def split: option.splits)
    from assms F P S E4 R1 E6 R2 EM R3
    show "accepted env n l
       (Server_releaseSysPrivileges env suid
         \<lparr>ext = x3, trace = trace w @
            [CallSetupSysPrivileges (Inr suid), CallEnableIPv4Forwarding None,
             Log Info ''Set IPv4 forwarding = 1'' None, CallEnableIPv6Forwarding None,
             Log Info ''Set IPv6 forwarding = 1'' None,
             CallEnableIPMasquerading (defaultNetworkInterface s) None,
             Log Info ''Enabled IP masquerading'' None]\<rparr>) = Some w1"
      by (auto simp: serving_def call_def logf_def Let_def split: option.splits)
    fix fuel
    from F P S E4 R1 E6 R2 EM R3
    show "Serve env fuel l s w =
       (case acceptLoop env fuel l
          (Server_releaseSysPrivileges env suid
            \<lparr>ext = x3, trace = trace w @
              [CallSetupSysPrivileges (Inr suid), CallEnableIPv4Forwarding None,
               Log Info ''Set IPv4 forwarding = 1'' None, CallEnableIPv6Forwarding None,
               Log Info ''Set IPv6 forwarding = 1'' None,
               CallEnableIPMasquerading (defaultNetworkInterface s) None,
               Log Info ''Enabled IP masquerading'' None]\<rparr>) of
          None \<Rightarrow> None
        | Some (err, w9) \<Rightarrow>
            Some (err, s\<lparr>lis := Some l, serveOnce := True\<rparr>,
                  runDefers env (s\<lparr>lis := Some l\<rparr>)
                    [DeferSetupSysPrivileges, DeferDisableIPMasquerading,
                     DeferRevertIPv6Forwarding, DeferRevertIPv4Forwarding,
                     DeferReleaseSysPrivileges suid] w9))"
      by (simp add: Serve_def call_def logf_def Let_def del: runDefers.simps runDeferred.simps)
  qed
qed

lemma serving_prefix:
  assumes "serving env n l s w = Some (s1, w1)"
  shows "\<exists>suid. Serve env (n + k) l s w =
       (case acceptLoop env k l w1 of
          None \<Rightarrow> None
        | Some (err, w9) \<Rightarrow>
            Some (err, s\<lparr>lis := Some l, serveOnce := True\<rparr>,
                  runDefers env (s\<lparr>lis := Some l\<rparr>)
                    [DeferSetupSysPrivileges, DeferDisableIPMasquerading,
                     DeferRevertIPv6Forwarding, DeferRevertIPv4Forwarding,
                     DeferReleaseSysPrivileges suid] w9))"
  using assms
proof (cases rule: serving_cases)
  case (1 suid x3)
  from 1(5) [of "n + k"] acceptLoop_accepted [OF 1(4), of k] show ?thesis
    by (intro exI [of _ suid]) (simp only:)
qed







subsection \<open>The order of the teardown\<close>

text \<open>
  Claim C7. A call of \<^verbatim>\<open>Serve\<close> that has enabled masquerading, the last step of the
  setup, and that returns, ends with the teardown: masquerading is disabled, then the
  IPv6 value is restored, then the IPv4 value, between taking the privileges again and
  releasing them. Each of the three steps is followed by its log entry, the error when it
  failed, and the later steps run whatever the outcome of the earlier ones. No restoring
  call happens before the teardown.
\<close>

theorem Serve_teardown_order:
  assumes "Serve env fuel l s w = Some (err, s', w')"
    and "CallEnableIPMasquerading (defaultNetworkInterface s) None \<in> set (newEvents w w')"
  shows "\<exists>pre suid r0 r1 r2 r3 r4.
           newEvents w w' = pre @ teardownEvents s suid r0 r1 r2 r3 r4
         \<and> (\<forall>ev\<in>set pre. \<not> isRestoreCall ev)
         \<and> filter isRestoreCall (newEvents w w') =
             [CallDisableIPMasquerading (defaultNetworkInterface s) r1,
              CallSetIPv6ForwardingValue (ipv6ForwardingVal s) r2,
              CallSetIPv4ForwardingValue (ipv4ForwardingVal s) r3]"
  using assms(1)
proof (cases rule: Serve_cases)
  case (Served suid rr acc e r0 r1 r2 r3 r4)
  let ?pre = "[CallSetupSysPrivileges (Inr suid), CallEnableIPv4Forwarding None,
          Log Info ''Set IPv4 forwarding = 1'' None, CallEnableIPv6Forwarding None,
          Log Info ''Set IPv6 forwarding = 1'' None,
          CallEnableIPMasquerading (defaultNetworkInterface s) None,
          Log Info ''Enabled IP masquerading'' None] @ releaseEvents suid rr @ acc"
  from newEvents_append [OF Served(5)]
  have E: "newEvents w w' = ?pre @ teardownEvents s suid r0 r1 r2 r3 r4"
    by simp
  from accept_events [OF Served(4)] have F: "filter isRestoreCall ?pre = []"
    by simp
  then have P: "\<forall>ev\<in>set ?pre. \<not> isRestoreCall ev"
    by (simp only: filter_empty_conv) 
  from F have "filter isRestoreCall (newEvents w w') =
             [CallDisableIPMasquerading (defaultNetworkInterface s) r1,
              CallSetIPv6ForwardingValue (ipv6ForwardingVal s) r2,
              CallSetIPv4ForwardingValue (ipv4ForwardingVal s) r3]"
    unfolding E filter_append by (simp add: teardown_defs)
  with E P show ?thesis by blast
next
  case Already
  with assms(2) show ?thesis by (simp add: newEvents_def)
next
  case (NoPrivileges e)
  with assms(2) newEvents_append [OF NoPrivileges(4)] show ?thesis by simp
next
  case (NoIPv4 suid e r4)
  with assms(2) newEvents_append [OF NoIPv4(4)] show ?thesis
    by (auto simp: releaseEvents_def split: option.splits)
next
  case (NoIPv6 suid e r3 r4)
  with assms(2) newEvents_append [OF NoIPv6(4)] show ?thesis
    by (auto simp: releaseEvents_def teardown_defs outcomeLog_def split: option.splits)
next
  case (NoMasquerading suid e r2 r3 r4)
  with assms(2) newEvents_append [OF NoMasquerading(4)] show ?thesis
    by (auto simp: releaseEvents_def teardown_defs outcomeLog_def split: option.splits)
qed


theorem Serve_teardown_order_witness:
  "CallEnableIPMasquerading (defaultNetworkInterface (newServer ''secret'')) None
     \<in> set (newEvents (scriptWorld (Inr hello1) [Inr 7] [TheDisableIPMasquerading])
          (snd (snd (the serveRunFailing))))
   \<and> filter isRestoreCall (newEvents (scriptWorld (Inr hello1) [Inr 7] [TheDisableIPMasquerading])
          (snd (snd (the serveRunFailing)))) =
       [CallDisableIPMasquerading ''eth0'' (Some (New ''failed'')),
        CallSetIPv6ForwardingValue ''0'' None, CallSetIPv4ForwardingValue ''0'' None]
   \<and> Log Error ''Error disabling IP masquerading for %s'' (Some (New ''failed''))
     \<in> set (newEvents (scriptWorld (Inr hello1) [Inr 7] [TheDisableIPMasquerading])
          (snd (snd (the serveRunFailing))))"
proof -
  let ?w = "scriptWorld (Inr hello1) [Inr 7] [TheDisableIPMasquerading]"
  have run: "Serve scriptEnv 2 5 (newServer ''secret'') ?w =
      Some (Errorf ''failed to accept client connection: %w'' (New ''listener closed''),
        (newServer ''secret'')\<lparr>lis := Some 5, serveOnce := True\<rparr>,
        snd (snd (the serveRunFailing)))"
    using serveRunFailing_eq by (simp add: serveRunFailing_def)
  have mem: "CallEnableIPMasquerading (defaultNetworkInterface (newServer ''secret'')) None
     \<in> set (newEvents ?w (snd (snd (the serveRunFailing))))"
    by (simp add: serveRunFailing_eq newEvents_def scriptWorld_def newServer_def)
  have rest: "filter isRestoreCall (newEvents ?w (snd (snd (the serveRunFailing)))) =
       [CallDisableIPMasquerading ''eth0'' (Some (New ''failed'')),
        CallSetIPv6ForwardingValue ''0'' None, CallSetIPv4ForwardingValue ''0'' None]"
    "Log Error ''Error disabling IP masquerading for %s'' (Some (New ''failed''))
     \<in> set (newEvents ?w (snd (snd (the serveRunFailing))))"
    by (simp_all add: serveRunFailing_eq newEvents_def scriptWorld_def)
  from Serve_teardown_order [OF run mem] mem rest
  show ?thesis by simp
qed

end
